theory Spec2Isabelle
  imports Main "HOL-Library.AList"
begin

section \<open>RecketClient: a shallow embedding of src/index.ts\<close>

text \<open>
  The class \<^verbatim>\<open>RecketClient\<close> is modelled as a record of its private fields together with
  the part of the environment its methods act on: the ready state of the current
  WebSocket, the table of live timers, and four logs that make effects observable
  (frames accepted by the socket, calls of promise continuations, calls of registered
  event handlers, sockets created). Every method and every socket or timer callback is a
  function on that record. JavaScript is single threaded and each callback runs to
  completion, so a run of the client is a sequence of such functions.

  Conventions of the model.
  \<^item> JavaScript numbers are integers (\<open>int\<close>); fractions, NaN and Infinity are outside
    the model.
  \<^item> The request identifier \<^verbatim>\<open>Date.now() + Math.random().toString(36).substring(2, 10)\<close>
    is supplied by the environment as an argument of \<open>request\<close>.
  \<^item> Handlers registered with \<^verbatim>\<open>on\<close> and \<^verbatim>\<open>onRequest\<close> are user code. A handler function
    is identified by a number. What it does when the client calls it is supplied by the
    environment with the socket event during which the call happens: a sequence of calls
    of the client's public methods, each inside or outside a \<^verbatim>\<open>try\<close> block of the handler,
    after which the handler returns or throws. Within one socket event a handler function
    called again with the same arguments does the same again. The model records each
    invocation of an event handler with its argument list.
  \<^item> \<^verbatim>\<open>console.log\<close>, \<^verbatim>\<open>console.warn\<close> and \<^verbatim>\<open>console.error\<close> have no effect on the state.
  \<^item> Building the connection URL is outside the model; the protocol and host name of
    the parsed URL are fields of the record.
\<close>

subsection \<open>JavaScript values\<close>

datatype jsval =
    JUndefined
  | JNull
  | JBool bool
  | JNum int
  | JStr string
  | JBigInt int
  | JArr "jsval list"
  | JObj "(string \<times> jsval) list"

text \<open>Truthiness, as used by \<^verbatim>\<open>if (x)\<close>, \<^verbatim>\<open>x && y\<close> and \<^verbatim>\<open>x || y\<close>.\<close>

fun truthy :: "jsval \<Rightarrow> bool" where
  "truthy JUndefined = False"
| "truthy JNull = False"
| "truthy (JBool b) = b"
| "truthy (JNum n) = (n \<noteq> 0)"
| "truthy (JStr s) = (s \<noteq> [])"
| "truthy (JBigInt n) = (n \<noteq> 0)"
| "truthy (JArr vs) = True"
| "truthy (JObj kvs) = True"

text \<open>
  \<^verbatim>\<open>JSON.stringify\<close> throws a TypeError on a BigInt, wherever it occurs in the value;
  on every other value of the model it returns.
\<close>

fun serialisable :: "jsval \<Rightarrow> bool" where
  "serialisable (JBigInt n) = False"
| "serialisable (JArr vs) = list_all serialisable vs"
| "serialisable (JObj kvs) = list_all serialisable (map snd kvs)"
| "serialisable JUndefined = True"
| "serialisable JNull = True"
| "serialisable (JBool b) = True"
| "serialisable (JNum n) = True"
| "serialisable (JStr s) = True"

text \<open>
  Property access \<^verbatim>\<open>v?.k\<close> for the property names the client reads (\<^verbatim>\<open>id\<close>,
  \<^verbatim>\<open>endpoint\<close>, \<^verbatim>\<open>data\<close>, \<^verbatim>\<open>error\<close>, \<^verbatim>\<open>code\<close>, \<^verbatim>\<open>message\<close>, \<^verbatim>\<open>event\<close>, \<^verbatim>\<open>request\<close>,
  \<^verbatim>\<open>response\<close>): none of them is a property of a primitive or of an array, so only an
  object can have one. An object lists each key once.
\<close>

fun field :: "jsval \<Rightarrow> string \<Rightarrow> jsval" where
  "field (JObj kvs) k = (case map_of kvs k of Some v \<Rightarrow> v | None \<Rightarrow> JUndefined)"
| "field v k = JUndefined"

subsection \<open>Frames, outcomes, timers\<close>

datatype ready_state = CONNECTING | OPEN | CLOSING | CLOSED

text \<open>
  What can be thrown: by \<^verbatim>\<open>JSON.stringify\<close>, by \<^verbatim>\<open>WebSocket.send\<close>, by \<^verbatim>\<open>onRequest\<close>, or
  by a handler (any value).
\<close>

datatype exn = TypeError | InvalidStateError | EndpointRegistered | Thrown jsval

text \<open>The text of an error response built by the client itself.\<close>

datatype failure_text = TextOf jsval | TextOfExn exn

text \<open>
  The third argument of \<^verbatim>\<open>sendResponse\<close>: what the handler passed to \<^verbatim>\<open>respond\<close>, or
  \<^verbatim>\<open>{code: 404, message: `No handler registered for endpoint: ${endpoint}`}\<close>, or
  \<^verbatim>\<open>{code: 500, message: ...}\<close>.
\<close>

datatype resp_error =
    UserError jsval
  | EndpointMissing jsval
  | HandlerFailed failure_text

text \<open>A frame is the object handed to \<^verbatim>\<open>JSON.stringify\<close> before \<^verbatim>\<open>socket.send\<close>.\<close>

datatype frame =
    EventFrame string jsval
  | RequestFrame string string jsval
  | ResponseFrame jsval jsval resp_error

fun frame_serialisable :: "frame \<Rightarrow> bool" where
  "frame_serialisable (EventFrame e d) = serialisable d"
| "frame_serialisable (RequestFrame i e d) = serialisable d"
| "frame_serialisable (ResponseFrame i d (UserError e)) =
     (serialisable i \<and> serialisable d \<and> serialisable e)"
| "frame_serialisable (ResponseFrame i d (EndpointMissing e)) =
     (serialisable i \<and> serialisable d)"
| "frame_serialisable (ResponseFrame i d (HandlerFailed (TextOf m))) =
     (serialisable i \<and> serialisable d \<and> serialisable m)"
| "frame_serialisable (ResponseFrame i d (HandlerFailed (TextOfExn x))) =
     (serialisable i \<and> serialisable d)"

text \<open>
  What a promise continuation was called with: \<^verbatim>\<open>resolve(data)\<close>,
  \<^verbatim>\<open>reject({code, message})\<close>, or \<^verbatim>\<open>reject(err)\<close> for
  \<^verbatim>\<open>err = new Error(m); err.code = c\<close>.
\<close>

datatype outcome =
    Resolved jsval
  | RejectedWith int string
  | RejectedError jsval jsval

text \<open>
  An entry of \<^verbatim>\<open>pendingRequests\<close>: the promise whose \<^verbatim>\<open>resolve\<close> and \<^verbatim>\<open>reject\<close> it holds
  (promises are numbered in the order \<open>request\<close> creates them) and the handle of its
  deadline timer.
\<close>

record pending =
  promise :: nat
  timeout :: nat

text \<open>
  The two closures given to \<^verbatim>\<open>setTimeout\<close>: the deadline of a request (it captures the
  request identifier and the promise) and the reconnection attempt.
\<close>

datatype callback = RequestDeadline string nat | Reconnect

subsection \<open>The client\<close>

record client =
  readyState :: ready_state
  urlProtocol :: string
  urlHostname :: string
  events :: "string \<rightharpoonup> nat"
  requestHandlers :: "string \<rightharpoonup> nat"
  pendingRequests :: "(string \<times> pending) list"
  allowServerRequests :: bool
  reconnectionAttempts :: int
  reconnectionDelay :: int
  shouldReconnect :: bool
  currentAttempt :: int
  isManuallyDisconnected :: bool
  eventQueue :: "(string \<times> jsval) list"
  timers :: "(nat \<times> callback \<times> int) list"
  nextTimer :: nat
  nextPromise :: nat
  socketsCreated :: nat
  sent :: "frame list"
  settleCalls :: "(nat \<times> outcome) list"
  handlerCalls :: "(nat \<times> jsval list) list"

text \<open>A method that can throw returns the state it leaves behind in either case.\<close>

datatype result = Done client | Threw exn client

fun state_of :: "result \<Rightarrow> client" where
  "state_of (Done s) = s"
| "state_of (Threw x s) = s"

fun returns :: "result \<Rightarrow> bool" where
  "returns (Done s) = True"
| "returns (Threw x s) = False"

subsection \<open>The platform: timers, the socket, promises\<close>

text \<open>\<^verbatim>\<open>setTimeout(cb, d)\<close>; the handle it returns is \<open>nextTimer s\<close>.\<close>

definition setTimeout :: "callback \<Rightarrow> int \<Rightarrow> client \<Rightarrow> client" where
  "setTimeout cb d s =
     s\<lparr>timers := timers s @ [(nextTimer s, cb, d)], nextTimer := Suc (nextTimer s)\<rparr>"

definition clearTimeout :: "nat \<Rightarrow> client \<Rightarrow> client" where
  "clearTimeout h s = s\<lparr>timers := filter (\<lambda>t. fst t \<noteq> h) (timers s)\<rparr>"

text \<open>A call of \<^verbatim>\<open>resolve\<close> or \<^verbatim>\<open>reject\<close> of promise \<open>p\<close>.\<close>

definition settle :: "nat \<Rightarrow> outcome \<Rightarrow> client \<Rightarrow> client" where
  "settle p out s = s\<lparr>settleCalls := settleCalls s @ [(p, out)]\<rparr>"

text \<open>
  A promise takes the outcome of the first call of one of its continuations; later
  calls are ignored.
\<close>

definition promise_outcome :: "client \<Rightarrow> nat \<Rightarrow> outcome option" where
  "promise_outcome s p = map_of (settleCalls s) p"

text \<open>
  \<^verbatim>\<open>this.socket.send(JSON.stringify(f))\<close>. \<^verbatim>\<open>JSON.stringify\<close> runs first and may throw.
  \<^verbatim>\<open>WebSocket.send\<close> throws an InvalidStateError while the socket is connecting,
  transmits when it is open, and discards the data when it is closing or closed.
\<close>

definition send_json :: "frame \<Rightarrow> client \<Rightarrow> result" where
  "send_json f s =
     (if \<not> frame_serialisable f then Threw TypeError s
      else case readyState s of
             CONNECTING \<Rightarrow> Threw InvalidStateError s
           | OPEN \<Rightarrow> Done (s\<lparr>sent := sent s @ [f]\<rparr>)
           | CLOSING \<Rightarrow> Done s
           | CLOSED \<Rightarrow> Done s)"

text \<open>
  \<^verbatim>\<open>this.socket.close()\<close>: starts the closing handshake of an open or connecting socket,
  and does nothing otherwise.
\<close>

definition socket_close :: "client \<Rightarrow> client" where
  "socket_close s =
     (if readyState s = OPEN \<or> readyState s = CONNECTING
      then s\<lparr>readyState := CLOSING\<rparr> else s)"

subsection \<open>Construction\<close>

text \<open>
  The constructor's \<^verbatim>\<open>options\<close> argument; an absent member is \<open>None\<close> and takes the
  default through \<^verbatim>\<open>??\<close>.
\<close>

record options =
  optReconnectionAttempts :: "int option"
  optReconnectionDelay :: "int option"
  optShouldReconnect :: "bool option"

definition no_options :: options where
  "no_options =
     \<lparr>optReconnectionAttempts = None, optReconnectionDelay = None, optShouldReconnect = None\<rparr>"

text \<open>
  \<^verbatim>\<open>initializeSocket\<close> creates a new socket, which starts connecting, makes it
  \<^verbatim>\<open>this.socket\<close> and installs the four callbacks (the functions \<open>onmessage\<close>, \<open>onclose\<close>,
  \<open>onopen\<close> below; \<^verbatim>\<open>onerror\<close> only logs).
\<close>

definition initializeSocket :: "client \<Rightarrow> client" where
  "initializeSocket s = s\<lparr>readyState := CONNECTING, socketsCreated := Suc (socketsCreated s)\<rparr>"

definition new_client :: "string \<Rightarrow> string \<Rightarrow> options \<Rightarrow> client" where
  "new_client protocol hostname opts =
     initializeSocket
       \<lparr>readyState = CLOSED,
        urlProtocol = protocol,
        urlHostname = hostname,
        events = Map.empty,
        requestHandlers = Map.empty,
        pendingRequests = [],
        allowServerRequests = False,
        reconnectionAttempts = (case optReconnectionAttempts opts of Some n \<Rightarrow> n | None \<Rightarrow> 5),
        reconnectionDelay = (case optReconnectionDelay opts of Some d \<Rightarrow> d | None \<Rightarrow> 1000),
        shouldReconnect = (case optShouldReconnect opts of Some b \<Rightarrow> b | None \<Rightarrow> True),
        currentAttempt = 0,
        isManuallyDisconnected = False,
        eventQueue = [],
        timers = [],
        nextTimer = 0,
        nextPromise = 0,
        socketsCreated = 0,
        sent = [],
        settleCalls = [],
        handlerCalls = []\<rparr>"

subsection \<open>The public methods\<close>

definition enableServerRequests :: "client \<Rightarrow> client" where
  "enableServerRequests s =
     (if urlProtocol s = ''wss:'' \<or> urlHostname s = ''localhost''
      then s\<lparr>allowServerRequests := True\<rparr> else s)"

definition disableServerRequests :: "client \<Rightarrow> client" where
  "disableServerRequests s = s\<lparr>allowServerRequests := False\<rparr>"

definition on :: "string \<Rightarrow> nat \<Rightarrow> client \<Rightarrow> client" where
  "on event handler s = s\<lparr>events := (events s)(event \<mapsto> handler)\<rparr>"

definition onRequest :: "string \<Rightarrow> nat \<Rightarrow> client \<Rightarrow> result" where
  "onRequest endpoint handler s =
     (if requestHandlers s endpoint \<noteq> None then Threw EndpointRegistered s
      else Done (s\<lparr>requestHandlers := (requestHandlers s)(endpoint \<mapsto> handler)\<rparr>))"

definition isConnected :: "client \<Rightarrow> bool" where
  "isConnected s = (readyState s = OPEN)"

definition emit :: "string \<Rightarrow> jsval \<Rightarrow> client \<Rightarrow> result" where
  "emit event data s =
     (if readyState s \<noteq> OPEN then
        (if \<not> isManuallyDisconnected s
         then Done (s\<lparr>eventQueue := eventQueue s @ [(event, data)]\<rparr>)
         else Done s)
      else send_json (EventFrame event data) s)"

definition close :: "client \<Rightarrow> client" where
  "close s = socket_close s"

definition reconnectResume :: "client \<Rightarrow> client" where
  "reconnectResume s =
     (if readyState s = OPEN \<or> readyState s = CONNECTING then s else initializeSocket s)"

definition disconnect :: "client \<Rightarrow> client" where
  "disconnect s =
     (if readyState s \<noteq> OPEN \<and> readyState s \<noteq> CONNECTING then s
      else socket_close
             (s\<lparr>isManuallyDisconnected := True, shouldReconnect := False, eventQueue := []\<rparr>))"

text \<open>
  \<open>request endpoint data timeoutDuration rid s\<close>: the promise returned is number
  \<open>nextPromise s\<close>; \<open>rid\<close> is the identifier the call generates. The executor of the
  promise runs at once and never throws to the caller. The closure handed to
  \<^verbatim>\<open>setTimeout\<close> is \<open>RequestDeadline rid p\<close>.
\<close>

definition request :: "string \<Rightarrow> jsval \<Rightarrow> int \<Rightarrow> string \<Rightarrow> client \<Rightarrow> client" where
  "request endpoint data timeoutDuration rid s =
     (let p = nextPromise s;
          s0 = s\<lparr>nextPromise := Suc p\<rparr>
      in if isManuallyDisconnected s0 then
           settle p (RejectedWith 400 ''Connection manually disconnected'') s0
         else if readyState s0 \<noteq> OPEN then
           settle p (RejectedWith 503 ''WebSocket is not connected'') s0
         else
           let h = nextTimer s0;
               s1 = setTimeout (RequestDeadline rid p) timeoutDuration s0;
               s2 = s1\<lparr>pendingRequests :=
                         AList.update rid \<lparr>promise = p, timeout = h\<rparr> (pendingRequests s1)\<rparr>
           in case send_json (RequestFrame rid endpoint data) s2 of
                Done s3 \<Rightarrow> s3
              | Threw x s3 \<Rightarrow> settle p (RejectedWith 500 ''Failed to send request'') s3)"

definition sendResponse :: "jsval \<Rightarrow> jsval \<Rightarrow> resp_error \<Rightarrow> client \<Rightarrow> result" where
  "sendResponse i d e s = send_json (ResponseFrame i d e) s"

text \<open>
  A call of the \<^verbatim>\<open>respond\<close> continuation that \<^verbatim>\<open>handleIncomingRequest\<close> handed to a request
  handler for the request \<open>i\<close>, during the handler or later.
\<close>

definition respond :: "jsval \<Rightarrow> jsval \<Rightarrow> jsval \<Rightarrow> client \<Rightarrow> result" where
  "respond i d e s = sendResponse i d (UserError e) s"

subsection \<open>User code\<close>

text \<open>What user code can call on the client.\<close>

datatype call =
    On string nat
  | Emit string jsval
  | Close
  | OnRequest string nat
  | EnableServerRequests
  | DisableServerRequests
  | ReconnectResume
  | Disconnect
  | Request string jsval int string
  | Respond jsval jsval jsval

fun user_call :: "call \<Rightarrow> client \<Rightarrow> result" where
  "user_call (On event handler) s = Done (on event handler s)"
| "user_call (Emit event data) s = emit event data s"
| "user_call Close s = Done (close s)"
| "user_call (OnRequest endpoint handler) s = onRequest endpoint handler s"
| "user_call EnableServerRequests s = Done (enableServerRequests s)"
| "user_call DisableServerRequests s = Done (disableServerRequests s)"
| "user_call ReconnectResume s = Done (reconnectResume s)"
| "user_call Disconnect s = Done (disconnect s)"
| "user_call (Request endpoint data t rid) s = Done (request endpoint data t rid s)"
| "user_call (Respond i d e) s = respond i d e s"

text \<open>
  What a handler does when it is called: the calls it makes on the client, in order, each
  with a flag that says whether the handler catches an exception of that call, and then
  the value it throws, if it does not return. An exception the handler does not catch
  ends the handler and leaves it.
\<close>

type_synonym reaction = "(call \<times> bool) list \<times> jsval option"

fun do_calls :: "(call \<times> bool) list \<Rightarrow> client \<Rightarrow> result" where
  "do_calls [] s = Done s"
| "do_calls (c # cs) s =
     (case user_call (fst c) s of
        Done s' \<Rightarrow> do_calls cs s'
      | Threw x s' \<Rightarrow> if snd c then do_calls cs s' else Threw x s')"

definition react :: "reaction \<Rightarrow> client \<Rightarrow> result" where
  "react r s =
     (case do_calls (fst r) s of
        Done s' \<Rightarrow> (case snd r of None \<Rightarrow> Done s' | Some v \<Rightarrow> Threw (Thrown v) s')
      | Threw x s' \<Rightarrow> Threw x s')"

text \<open>
  The user's handlers, as the environment supplies them with a socket event: what handler
  function \<open>h\<close> does when called with the arguments \<open>args\<close> during that event.
\<close>

type_synonym handlers = "nat \<Rightarrow> jsval list \<Rightarrow> reaction"

text \<open>Handlers that do nothing and return.\<close>

definition quiet :: handlers where
  "quiet h args = ([], None)"

text \<open>
  \<^verbatim>\<open>this.events.get(name)?.(...args)\<close>: the call is recorded, then the handler runs. What
  the handler throws leaves \<open>call_handler\<close>.
\<close>

definition call_handler :: "handlers \<Rightarrow> string \<Rightarrow> jsval list \<Rightarrow> client \<Rightarrow> result" where
  "call_handler hs name args s =
     (case events s name of
        None \<Rightarrow> Done s
      | Some h \<Rightarrow> react (hs h args) (s\<lparr>handlerCalls := handlerCalls s @ [(h, args)]\<rparr>))"

subsection \<open>Queued events\<close>

text \<open>
  \<^verbatim>\<open>this.eventQueue.forEach(({ event, data }) => this.emit(event, data))\<close>: \<^verbatim>\<open>forEach\<close>
  visits the elements the array had when it was called; an \<^verbatim>\<open>emit\<close> that throws ends
  the loop and the exception leaves \<^verbatim>\<open>flushEventQueue\<close> before the queue is reset.
\<close>

fun emit_each :: "(string \<times> jsval) list \<Rightarrow> client \<Rightarrow> result" where
  "emit_each [] s = Done s"
| "emit_each (e # es) s =
     (case emit (fst e) (snd e) s of
        Done s' \<Rightarrow> emit_each es s'
      | Threw x s' \<Rightarrow> Threw x s')"

definition flushEventQueue :: "client \<Rightarrow> result" where
  "flushEventQueue s =
     (case emit_each (eventQueue s) s of
        Done s' \<Rightarrow> Done (s'\<lparr>eventQueue := []\<rparr>)
      | Threw x s' \<Rightarrow> Threw x s')"

subsection \<open>Requests from the server\<close>

text \<open>\<^verbatim>\<open>this.requestHandlers.get(endpoint)\<close>: the keys of the map are strings.\<close>

definition find_handler :: "client \<Rightarrow> jsval \<Rightarrow> nat option" where
  "find_handler s endpoint =
     (case endpoint of JStr e \<Rightarrow> requestHandlers s e | _ \<Rightarrow> None)"

text \<open>
  The \<^verbatim>\<open>catch\<close> block of \<^verbatim>\<open>handleIncomingRequest\<close> for a value \<open>v\<close> the handler threw:
  reading \<^verbatim>\<open>error.message\<close> of \<^verbatim>\<open>null\<close> or \<^verbatim>\<open>undefined\<close> throws in turn.
\<close>

definition handler_threw :: "jsval \<Rightarrow> jsval \<Rightarrow> client \<Rightarrow> result" where
  "handler_threw i v s =
     (if v = JNull \<or> v = JUndefined then Threw TypeError s
      else sendResponse i JNull
             (HandlerFailed (TextOf (if truthy (field v ''message'') then field v ''message''
                                     else JStr ''Unknown error''))) s)"

text \<open>
  The handler is called with the request's data and the \<^verbatim>\<open>respond\<close> continuation; a call
  of the continuation during the handler is the call \<open>Respond i d e\<close> of its reaction.
  Whatever leaves the handler, a value it threw or an exception of a call it did not
  catch, reaches the \<^verbatim>\<open>catch\<close> block, which answers with code 500 and the message.
\<close>

definition handleIncomingRequest ::
  "handlers \<Rightarrow> jsval \<Rightarrow> jsval \<Rightarrow> jsval \<Rightarrow> client \<Rightarrow> result" where
  "handleIncomingRequest hs i endpoint d s =
     (case find_handler s endpoint of
        None \<Rightarrow> sendResponse i JNull (EndpointMissing endpoint) s
      | Some handler \<Rightarrow>
          (case react (hs handler [d]) s of
             Done s' \<Rightarrow> Done s'
           | Threw (Thrown v) s' \<Rightarrow> handler_threw i v s'
           | Threw x s' \<Rightarrow> sendResponse i JNull (HandlerFailed (TextOfExn x)) s'))"

subsection \<open>Responses from the server\<close>

definition handleIncomingResponse :: "jsval \<Rightarrow> jsval \<Rightarrow> jsval \<Rightarrow> client \<Rightarrow> client" where
  "handleIncomingResponse i d e s =
     (case i of
        JStr rid \<Rightarrow>
          (case map_of (pendingRequests s) rid of
             None \<Rightarrow> s
           | Some p \<Rightarrow>
               let s1 = clearTimeout (timeout p) s;
                   s2 = s1\<lparr>pendingRequests := AList.delete rid (pendingRequests s1)\<rparr>
               in if truthy e
                  then settle (promise p)
                         (RejectedError
                            (if truthy (field e ''message'') then field e ''message''
                             else JStr ''Unknown Error'')
                            (if truthy (field e ''code'') then field e ''code'' else JNum 500))
                         s2
                  else settle (promise p) (Resolved d) s2)
      | _ \<Rightarrow> s)"

subsection \<open>Reconnection\<close>

definition tryReconnect :: "handlers \<Rightarrow> client \<Rightarrow> result" where
  "tryReconnect hs s =
     (if currentAttempt s \<ge> reconnectionAttempts s
      then call_handler hs ''reconnect_failed'' [] s
      else Done (setTimeout Reconnect (reconnectionDelay s) s))"

text \<open>The closure \<^verbatim>\<open>tryReconnect\<close> hands to \<^verbatim>\<open>setTimeout\<close>.\<close>

definition reconnect_attempt :: "client \<Rightarrow> client" where
  "reconnect_attempt s =
     (let s1 = s\<lparr>currentAttempt := currentAttempt s + 1\<rparr>;
          s2 = reconnectResume s1
      in s2\<lparr>reconnectionDelay := min 30000 (reconnectionDelay s2 * 2)\<rparr>)"

fun reject_each :: "(string \<times> pending) list \<Rightarrow> client \<Rightarrow> client" where
  "reject_each [] s = s"
| "reject_each (e # es) s =
     reject_each es
       (settle (promise (snd e)) (RejectedWith 503 ''WebSocket connection closed'')
          (clearTimeout (timeout (snd e)) s))"

definition clearPendingRequests :: "client \<Rightarrow> client" where
  "clearPendingRequests s = (reject_each (pendingRequests s) s)\<lparr>pendingRequests := []\<rparr>"

subsection \<open>The socket's callbacks\<close>

text \<open>
  A received message: its text either fails to parse (\<^verbatim>\<open>JSON.parse\<close> throws) or parses
  to a value.
\<close>

datatype message = Malformed | Parsed jsval

text \<open>
  The body of the \<^verbatim>\<open>try\<close> block of \<^verbatim>\<open>onmessage\<close>. Destructuring \<^verbatim>\<open>null\<close> throws; the
  keys of the \<^verbatim>\<open>events\<close> map are strings.
\<close>

definition dispatch :: "handlers \<Rightarrow> jsval \<Rightarrow> client \<Rightarrow> result" where
  "dispatch hs v s =
     (if v = JNull \<or> v = JUndefined then Threw TypeError s
      else
        let event = field v ''event'';
            data = field v ''data'';
            request = field v ''request'';
            response = field v ''response''
        in if truthy (field request ''id'') \<and> truthy (field request ''endpoint'') then
             (if \<not> allowServerRequests s then Done s
              else handleIncomingRequest hs (field request ''id'') (field request ''endpoint'')
                     (field request ''data'') s)
           else if truthy (field response ''id'') \<and>
                   (truthy (field response ''data'') \<or> truthy (field response ''error'')) then
             Done (handleIncomingResponse (field response ''id'') (field response ''data'')
                     (field response ''error'') s)
           else if event = JStr ''__system_handshake_ack'' then
             call_handler hs ''connect'' [] s
           else
             (case event of
                JStr name \<Rightarrow> call_handler hs name [data] s
              | _ \<Rightarrow> Done s))"

text \<open>The \<^verbatim>\<open>catch\<close> of \<^verbatim>\<open>onmessage\<close> logs and swallows every exception.\<close>

definition onmessage :: "handlers \<Rightarrow> message \<Rightarrow> client \<Rightarrow> client" where
  "onmessage hs m s = (case m of Malformed \<Rightarrow> s | Parsed v \<Rightarrow> state_of (dispatch hs v s))"

text \<open>
  \<^verbatim>\<open>onclose\<close> and \<^verbatim>\<open>onopen\<close> have no \<^verbatim>\<open>try\<close> block: what a handler throws ends the callback
  there and leaves it.
\<close>

definition onclose :: "handlers \<Rightarrow> client \<Rightarrow> result" where
  "onclose hs s =
     (case call_handler hs ''disconnect'' [] s of
        Threw x s1 \<Rightarrow> Threw x s1
      | Done s1 \<Rightarrow>
          (let s2 = clearPendingRequests s1
           in if \<not> isManuallyDisconnected s2 \<and> shouldReconnect s2
              then tryReconnect hs s2 else Done s2))"

definition onopen :: "handlers \<Rightarrow> client \<Rightarrow> result" where
  "onopen hs s =
     (case (if currentAttempt s > 0 then call_handler hs ''reconnect'' [] s else Done s) of
        Threw x s1 \<Rightarrow> Threw x s1
      | Done s1 \<Rightarrow>
          flushEventQueue
            (s1\<lparr>currentAttempt := 0, shouldReconnect := True,
                isManuallyDisconnected := False, reconnectionDelay := 1000\<rparr>))"

subsection \<open>Timers\<close>

text \<open>
  The closure \<^verbatim>\<open>request\<close> hands to \<^verbatim>\<open>setTimeout\<close>, for request \<open>rid\<close>, promise \<open>p\<close> and
  its own handle \<open>h\<close>.
\<close>

definition request_deadline :: "string \<Rightarrow> nat \<Rightarrow> nat \<Rightarrow> client \<Rightarrow> client" where
  "request_deadline rid p h s =
     settle p (RejectedWith 408 ''Request timed out'')
       (clearTimeout h (s\<lparr>pendingRequests := AList.delete rid (pendingRequests s)\<rparr>))"

text \<open>
  A timer that is still live fires: it leaves the timer table and its closure runs. A
  handle that was cleared, or has fired, does nothing.
\<close>

definition fire_timer :: "nat \<Rightarrow> client \<Rightarrow> client" where
  "fire_timer h s =
     (case map_of (timers s) h of
        None \<Rightarrow> s
      | Some t \<Rightarrow>
          (let s1 = s\<lparr>timers := filter (\<lambda>t'. fst t' \<noteq> h) (timers s)\<rparr>
           in (case fst t of
                 RequestDeadline rid p \<Rightarrow> request_deadline rid p h s1
               | Reconnect \<Rightarrow> reconnect_attempt s1)))"

subsection \<open>Runs of the client\<close>

text \<open>
  The socket events. The current socket opens or closes: its ready state changes and the
  callback runs. A socket that was replaced while it was still closing closes later: the
  callback runs on the client, whose current socket is another one.
\<close>

definition socket_opened :: "handlers \<Rightarrow> client \<Rightarrow> result" where
  "socket_opened hs s = onopen hs (s\<lparr>readyState := OPEN\<rparr>)"

definition socket_closed :: "handlers \<Rightarrow> client \<Rightarrow> result" where
  "socket_closed hs s = onclose hs (s\<lparr>readyState := CLOSED\<rparr>)"

definition retired_socket_closed :: "handlers \<Rightarrow> client \<Rightarrow> result" where
  "retired_socket_closed hs s = onclose hs s"

text \<open>
  Everything that can happen to a client: a call of a public method or of a kept
  \<^verbatim>\<open>respond\<close> continuation by the user, a socket event (with what the handlers do during
  it), a timer firing. An exception thrown to the caller, or out of a callback, leaves
  the state as it was when it was thrown.
\<close>

datatype action =
    User call
  | SocketOpen handlers
  | SocketClose handlers
  | RetiredSocketClose handlers
  | SocketMessage handlers message
  | TimerFires nat

fun is_open :: "action \<Rightarrow> bool" where
  "is_open (SocketOpen hs) = True"
| "is_open a = False"

fun step :: "action \<Rightarrow> client \<Rightarrow> client" where
  "step (User c) s = state_of (user_call c s)"
| "step (SocketOpen hs) s =
     (if readyState s = CONNECTING then state_of (socket_opened hs s) else s)"
| "step (SocketClose hs) s =
     (if readyState s \<noteq> CLOSED then state_of (socket_closed hs s) else s)"
| "step (RetiredSocketClose hs) s = state_of (retired_socket_closed hs s)"
| "step (SocketMessage hs m) s = onmessage hs m s"
| "step (TimerFires h) s = fire_timer h s"

fun run :: "action list \<Rightarrow> client \<Rightarrow> client" where
  "run [] s = s"
| "run (a # as) s = run as (step a s)"

subsection \<open>Well-formed tables\<close>

text \<open>
  Timer handles and promise numbers are handed out in increasing order, so in every state
  a run can reach the live timers have distinct handles below \<open>nextTimer\<close>, and the entries
  of \<^verbatim>\<open>pendingRequests\<close> have distinct keys, distinct promises below \<open>nextPromise\<close> and
  handles below \<open>nextTimer\<close>.
\<close>

definition tables_ok :: "client \<Rightarrow> bool" where
  "tables_ok s =
     (distinct (map fst (timers s)) \<and>
      list_all (\<lambda>t. fst t < nextTimer s) (timers s) \<and>
      distinct (map fst (pendingRequests s)) \<and>
      distinct (map (\<lambda>e. promise (snd e)) (pendingRequests s)) \<and>
      list_all (\<lambda>e. timeout (snd e) < nextTimer s \<and> promise (snd e) < nextPromise s)
        (pendingRequests s))"

subsection \<open>Notions used in the statements\<close>

text \<open>The request identifiers that a sequence of calls issues.\<close>

fun request_id :: "call \<Rightarrow> string list" where
  "request_id (Request endpoint data t rid) = [rid]"
| "request_id c = []"

definition request_ids :: "(call \<times> bool) list \<Rightarrow> string list" where
  "request_ids cs = concat (map (\<lambda>c. request_id (fst c)) cs)"

text \<open>
  The handler registered for an event, if there is one, makes no call on the client and
  returns when it is called with the arguments \<open>args\<close>.
\<close>

definition silent :: "handlers \<Rightarrow> client \<Rightarrow> string \<Rightarrow> jsval list \<Rightarrow> bool" where
  "silent hs s name args =
     (case events s name of None \<Rightarrow> True | Some h \<Rightarrow> hs h args = ([], None))"

text \<open>The tables of the request correlator.\<close>

definition tables ::
  "client \<Rightarrow> (string \<times> pending) list \<times> (nat \<times> callback \<times> int) list \<times> (nat \<times> outcome) list \<times> nat"
  where
  "tables s = (pendingRequests s, timers s, settleCalls s, nextPromise s)"

text \<open>
  From \<open>s\<close> to \<open>s'\<close> timers were only added, and continuations were only called for
  promises created since \<open>s\<close>.
\<close>

definition only_adds :: "client \<Rightarrow> client \<Rightarrow> bool" where
  "only_adds s s' =
     ((\<exists>new. timers s' = timers s @ new) \<and>
      (\<exists>new. settleCalls s' = settleCalls s @ new \<and> list_all (\<lambda>c. nextPromise s \<le> fst c) new) \<and>
      nextPromise s \<le> nextPromise s')"


text \<open>
  If the client is manually disconnected in \<open>s\<close>, with its socket not open and its queue
  empty, then it still is in \<open>s'\<close>, and nothing was sent from \<open>s\<close> to \<open>s'\<close>.
\<close>

definition stays_disconnected :: "client \<Rightarrow> client \<Rightarrow> bool" where
  "stays_disconnected s s' =
     (\<not> (isManuallyDisconnected s \<and> readyState s \<noteq> OPEN \<and> eventQueue s = []) \<or>
      (isManuallyDisconnected s' \<and> readyState s' \<noteq> OPEN \<and> eventQueue s' = [] \<and>
       sent s' = sent s))"

text \<open>
  If the socket is not open in \<open>s\<close>, then it is not open in \<open>s'\<close> either, and the table of
  pending requests and the timers are the same in \<open>s\<close> and \<open>s'\<close>.
\<close>

definition offline_kept :: "client \<Rightarrow> client \<Rightarrow> bool" where
  "offline_kept s s' =
     (readyState s = OPEN \<or>
      (readyState s' \<noteq> OPEN \<and> pendingRequests s' = pendingRequests s \<and>
       timers s' = timers s \<and> nextTimer s' = nextTimer s))"

subsection \<open>A client to run examples on\<close>

abbreviation a_client :: client where
  "a_client \<equiv> new_client ''ws:'' ''example.org'' no_options"

section \<open>Properties\<close>

subsection \<open>The tables stay well formed\<close>

lemma ok_cong:
  "timers s' = timers s \<Longrightarrow> nextTimer s' = nextTimer s \<Longrightarrow>
   pendingRequests s' = pendingRequests s \<Longrightarrow> nextPromise s' = nextPromise s \<Longrightarrow>
   tables_ok s' = tables_ok s"
  by (simp add: tables_ok_def)

lemma reject_each_settleCalls:
  "settleCalls (reject_each es s) =
     settleCalls s @ map (\<lambda>e. (promise (snd e), RejectedWith 503 ''WebSocket connection closed'')) es"
  by (induction es arbitrary: s) (simp_all add: settle_def clearTimeout_def)

lemma reject_each_timers:
  "timers (reject_each es s) = filter (\<lambda>t. fst t \<notin> set (map (\<lambda>e. timeout (snd e)) es)) (timers s)"
  by (induction es arbitrary: s) (auto simp: settle_def clearTimeout_def intro: filter_cong)

lemma reject_each_rest:
  "readyState (reject_each es s) = readyState s"
  "eventQueue (reject_each es s) = eventQueue s"
  "sent (reject_each es s) = sent s"
  "isManuallyDisconnected (reject_each es s) = isManuallyDisconnected s"
  "shouldReconnect (reject_each es s) = shouldReconnect s"
  "currentAttempt (reject_each es s) = currentAttempt s"
  "reconnectionAttempts (reject_each es s) = reconnectionAttempts s"
  "reconnectionDelay (reject_each es s) = reconnectionDelay s"
  "nextTimer (reject_each es s) = nextTimer s"
  "nextPromise (reject_each es s) = nextPromise s"
  "socketsCreated (reject_each es s) = socketsCreated s"
  "handlerCalls (reject_each es s) = handlerCalls s"
  "events (reject_each es s) = events s"
  "pendingRequests (reject_each es s) = pendingRequests s"
  by (induction es arbitrary: s, simp_all add: settle_def clearTimeout_def)+

lemma emit_each_frame:
  "timers (state_of (emit_each es s)) = timers s \<and>
   nextTimer (state_of (emit_each es s)) = nextTimer s \<and>
   pendingRequests (state_of (emit_each es s)) = pendingRequests s \<and>
   nextPromise (state_of (emit_each es s)) = nextPromise s"
  by (induction es arbitrary: s)
     (auto simp: emit_def send_json_def split: result.splits ready_state.splits if_splits)

lemma ok_new: "tables_ok (new_client pr h opts)"
  by (simp add: tables_ok_def new_client_def initializeSocket_def)

lemma set_update_subset: "set (AList.update k v al) \<subseteq> insert (k, v) (set al)"
  by (induction al) auto

lemma set_delete_subset: "set (AList.delete k al) \<subseteq> set al"
  by (auto simp: AList.delete_eq)

lemma distinct_map_update:
  "distinct (map g al) \<Longrightarrow> g (k, v) \<notin> g ` set al \<Longrightarrow> distinct (map g (AList.update k v al))"
proof (induction al)
  case Nil
  then show ?case by simp
next
  case (Cons a al)
  have sub: "g ` set (AList.update k v al) \<subseteq> insert (g (k, v)) (g ` set al)"
    using set_update_subset[of k v al] by blast
  show ?case
  proof (cases "fst a = k")
    case True
    with Cons.prems show ?thesis by (cases a) auto
  next
    case False
    have "g a \<notin> g ` set (AList.update k v al)"
      using sub Cons.prems by auto
    moreover have "distinct (map g (AList.update k v al))"
      using Cons by auto
    ultimately show ?thesis using False by (cases a) auto
  qed
qed

lemma distinct_map_delete:
  "distinct (map g al) \<Longrightarrow> distinct (map g (AList.delete k al))"
  by (simp add: AList.delete_eq distinct_map_filter)

lemma list_all_update:
  "list_all P al \<Longrightarrow> P (k, v) \<Longrightarrow> list_all P (AList.update k v al)"
  using set_update_subset[of k v al] by (auto simp: list_all_iff)

lemma list_all_delete:
  "list_all P al \<Longrightarrow> list_all P (AList.delete k al)"
  using set_delete_subset[of k al] by (auto simp: list_all_iff)

lemma ok_request: "tables_ok s \<Longrightarrow> tables_ok (request endpoint data t rid s)"
  apply (simp add: tables_ok_def request_def Let_def settle_def setTimeout_def send_json_def
      split: ready_state.splits)
  apply (intro conjI impI)
  apply (auto simp: list_all_iff AList.distinct_update intro!: distinct_map_update
      dest!: set_mp[OF set_update_subset])
  done

lemma ok_send_json: "tables_ok (state_of (send_json f s)) = tables_ok s"
  by (rule ok_cong) (simp_all add: send_json_def split: ready_state.splits)

lemma ok_emit: "tables_ok (state_of (emit e d s)) = tables_ok s"
  by (rule ok_cong) (simp_all add: emit_def send_json_def split: ready_state.splits)

lemma ok_emit_each: "tables_ok (state_of (emit_each es s)) = tables_ok s"
  by (rule ok_cong) (simp_all add: emit_each_frame)

lemma ok_flush: "tables_ok (state_of (flushEventQueue s)) = tables_ok s"
proof -
  have "tables_ok (state_of (flushEventQueue s)) = tables_ok (state_of (emit_each (eventQueue s) s))"
    by (rule ok_cong) (simp_all add: flushEventQueue_def split: result.splits)
  then show ?thesis by (simp add: ok_emit_each)
qed

lemma ok_clearTimeout: "tables_ok s \<Longrightarrow> tables_ok (clearTimeout h s)"
  by (auto simp: tables_ok_def clearTimeout_def list_all_iff distinct_map_filter)

lemma ok_settle: "tables_ok (settle p out s) = tables_ok s"
  by (rule ok_cong) (simp_all add: settle_def)

lemma ok_setTimeout: "tables_ok s \<Longrightarrow> tables_ok (setTimeout cb d s)"
  by (auto simp: tables_ok_def setTimeout_def list_all_iff)

lemma ok_clearPendingRequests: "tables_ok s \<Longrightarrow> tables_ok (clearPendingRequests s)"
  by (auto simp: tables_ok_def clearPendingRequests_def reject_each_timers reject_each_rest
      list_all_iff distinct_map_filter)

lemma ok_delete_pending:
  "tables_ok s \<Longrightarrow> tables_ok (s\<lparr>pendingRequests := AList.delete rid (pendingRequests s)\<rparr>)"
  by (simp add: tables_ok_def AList.distinct_delete distinct_map_delete list_all_delete)

lemma ok_handleIncomingResponse: "tables_ok s \<Longrightarrow> tables_ok (handleIncomingResponse i d e s)"
proof (cases i)
  case (JStr rid)
  show "tables_ok s \<Longrightarrow> tables_ok (handleIncomingResponse i d e s)"
  proof (cases "map_of (pendingRequests s) rid")
    case None
    then show "tables_ok s \<Longrightarrow> ?thesis" by (simp add: handleIncomingResponse_def JStr)
  next
    case (Some p)
    assume w: "tables_ok s"
    have "tables_ok ((clearTimeout (timeout p) s)
               \<lparr>pendingRequests := AList.delete rid (pendingRequests (clearTimeout (timeout p) s))\<rparr>)"
      using w by (intro ok_delete_pending ok_clearTimeout)
    then show ?thesis
      by (simp add: handleIncomingResponse_def JStr Some Let_def ok_settle)
  qed
qed (simp_all add: handleIncomingResponse_def)

lemma ok_reconnectResume: "tables_ok (reconnectResume s) = tables_ok s"
  by (rule ok_cong) (simp_all add: reconnectResume_def initializeSocket_def)

lemma ok_reconnect_attempt: "tables_ok (reconnect_attempt s) = tables_ok s"
  by (rule ok_cong) (simp_all add: reconnect_attempt_def Let_def reconnectResume_def initializeSocket_def)

lemma ok_request_deadline: "tables_ok s \<Longrightarrow> tables_ok (request_deadline rid p h s)"
  by (simp add: request_deadline_def ok_settle ok_clearTimeout ok_delete_pending)

lemma ok_fire_timer: "tables_ok s \<Longrightarrow> tables_ok (fire_timer h s)"
proof (cases "map_of (timers s) h")
  case None
  then show "tables_ok s \<Longrightarrow> ?thesis" by (simp add: fire_timer_def)
next
  case (Some t)
  assume w: "tables_ok s"
  have eq: "s\<lparr>timers := filter (\<lambda>t'. fst t' \<noteq> h) (timers s)\<rparr> = clearTimeout h s"
    by (simp add: clearTimeout_def)
  have "tables_ok (clearTimeout h s)" using w by (rule ok_clearTimeout)
  then show ?thesis
    by (simp add: fire_timer_def Some Let_def eq ok_reconnect_attempt ok_request_deadline
        split: callback.splits)
qed

lemma ok_user_call: "tables_ok s \<Longrightarrow> tables_ok (state_of (user_call c s))"
proof (cases c)
  case (On e h)
  have "tables_ok (on e h s) = tables_ok s" by (rule ok_cong) (simp_all add: on_def)
  then show "tables_ok s \<Longrightarrow> ?thesis" by (simp add: On)
next
  case (OnRequest e h)
  have "tables_ok (state_of (onRequest e h s)) = tables_ok s"
    by (rule ok_cong) (simp_all add: onRequest_def)
  then show "tables_ok s \<Longrightarrow> ?thesis" by (simp add: OnRequest)
next
  case Close
  have "tables_ok (close s) = tables_ok s"
    by (rule ok_cong) (simp_all add: close_def socket_close_def)
  then show "tables_ok s \<Longrightarrow> ?thesis" by (simp add: Close)
next
  case EnableServerRequests
  have "tables_ok (enableServerRequests s) = tables_ok s"
    by (rule ok_cong) (simp_all add: enableServerRequests_def)
  then show "tables_ok s \<Longrightarrow> ?thesis" by (simp add: EnableServerRequests)
next
  case DisableServerRequests
  have "tables_ok (disableServerRequests s) = tables_ok s"
    by (rule ok_cong) (simp_all add: disableServerRequests_def)
  then show "tables_ok s \<Longrightarrow> ?thesis" by (simp add: DisableServerRequests)
next
  case Disconnect
  have "tables_ok (disconnect s) = tables_ok s"
    by (rule ok_cong) (simp_all add: disconnect_def socket_close_def)
  then show "tables_ok s \<Longrightarrow> ?thesis" by (simp add: Disconnect)
qed (simp_all add: ok_emit ok_reconnectResume ok_request respond_def sendResponse_def
      ok_send_json)

lemma ok_do_calls: "tables_ok s \<Longrightarrow> tables_ok (state_of (do_calls cs s))"
proof (induction cs arbitrary: s)
  case Nil
  then show ?case by simp
next
  case (Cons c cs)
  have "tables_ok (state_of (user_call (fst c) s))"
    using Cons.prems by (rule ok_user_call)
  then show ?case
    using Cons.IH by (cases "user_call (fst c) s") auto
qed

lemma ok_react: "tables_ok s \<Longrightarrow> tables_ok (state_of (react r s))"
  using ok_do_calls[of s "fst r"]
  by (cases "do_calls (fst r) s") (auto simp: react_def split: option.splits)

lemma ok_call_handler: "tables_ok s \<Longrightarrow> tables_ok (state_of (call_handler hs n args s))"
proof (cases "events s n")
  case None
  then show "tables_ok s \<Longrightarrow> ?thesis" by (simp add: call_handler_def)
next
  case (Some h)
  assume "tables_ok s"
  moreover have "tables_ok (s\<lparr>handlerCalls := handlerCalls s @ [(h, args)]\<rparr>) = tables_ok s"
    by (rule ok_cong) simp_all
  ultimately show ?thesis by (simp add: call_handler_def Some ok_react)
qed

lemma ok_tryReconnect: "tables_ok s \<Longrightarrow> tables_ok (state_of (tryReconnect hs s))"
  by (simp add: tryReconnect_def ok_call_handler ok_setTimeout)

lemma ok_onclose: "tables_ok s \<Longrightarrow> tables_ok (state_of (onclose hs s))"
proof -
  assume w: "tables_ok s"
  have h: "tables_ok (state_of (call_handler hs ''disconnect'' [] s))"
    using w by (rule ok_call_handler)
  show ?thesis
  proof (cases "call_handler hs ''disconnect'' [] s")
    case (Done s1)
    then have "tables_ok (clearPendingRequests s1)"
      using h by (simp add: ok_clearPendingRequests)
    then show ?thesis
      by (simp add: onclose_def Done Let_def ok_tryReconnect)
  next
    case (Threw x s1)
    then show ?thesis using h by (simp add: onclose_def)
  qed
qed

lemma ok_onopen: "tables_ok s \<Longrightarrow> tables_ok (state_of (onopen hs s))"
proof -
  assume w: "tables_ok s"
  let ?r = "if currentAttempt s > 0 then call_handler hs ''reconnect'' [] s else Done s"
  have h: "tables_ok (state_of ?r)"
    using w by (simp add: ok_call_handler)
  show ?thesis
  proof (cases ?r)
    case (Done s1)
    let ?s2 = "s1\<lparr>currentAttempt := 0, shouldReconnect := True,
                  isManuallyDisconnected := False, reconnectionDelay := 1000\<rparr>"
    have "tables_ok ?s2 = tables_ok s1" by (rule ok_cong) simp_all
    then have "tables_ok (state_of (flushEventQueue ?s2))"
      using h Done by (simp add: ok_flush)
    then show ?thesis using Done by (simp add: onopen_def)
  next
    case (Threw x s1)
    then show ?thesis using h by (simp add: onopen_def)
  qed
qed

lemma ok_handleIncomingRequest:
  "tables_ok s \<Longrightarrow> tables_ok (state_of (handleIncomingRequest hs i ep d s))"
proof (cases "find_handler s ep")
  case None
  then show "tables_ok s \<Longrightarrow> ?thesis"
    by (simp add: handleIncomingRequest_def sendResponse_def ok_send_json)
next
  case (Some h)
  assume "tables_ok s"
  then have r: "tables_ok (state_of (react (hs h [d]) s))" by (rule ok_react)
  show ?thesis
  proof (cases "react (hs h [d]) s")
    case (Done s')
    then show ?thesis using r by (simp add: handleIncomingRequest_def Some)
  next
    case (Threw x s')
    then show ?thesis
      using r
      by (cases x)
         (simp_all add: handleIncomingRequest_def Some handler_threw_def sendResponse_def
            ok_send_json)
  qed
qed

lemma ok_dispatch: "tables_ok s \<Longrightarrow> tables_ok (state_of (dispatch hs v s))"
  by (simp add: dispatch_def Let_def ok_handleIncomingRequest ok_handleIncomingResponse
      ok_call_handler split: jsval.splits)

lemma ok_onmessage: "tables_ok s \<Longrightarrow> tables_ok (onmessage hs m s)"
  by (simp add: onmessage_def ok_dispatch split: message.splits)

lemma ok_step: "tables_ok s \<Longrightarrow> tables_ok (step a s)"
proof (cases a)
  case (SocketOpen hs)
  have "tables_ok (s\<lparr>readyState := OPEN\<rparr>) = tables_ok s" by (rule ok_cong) simp_all
  then show "tables_ok s \<Longrightarrow> ?thesis" by (simp add: SocketOpen socket_opened_def ok_onopen)
next
  case (SocketClose hs)
  have "tables_ok (s\<lparr>readyState := CLOSED\<rparr>) = tables_ok s" by (rule ok_cong) simp_all
  then show "tables_ok s \<Longrightarrow> ?thesis" by (simp add: SocketClose socket_closed_def ok_onclose)
qed (simp_all add: ok_user_call retired_socket_closed_def ok_onclose ok_onmessage ok_fire_timer)

lemma ok_run: "tables_ok s \<Longrightarrow> tables_ok (run as s)"
  by (induction as arbitrary: s) (simp_all add: ok_step)

subsection \<open>Requests on a connection that is not open\<close>

text \<open>
  Claim C3. A call of \<open>request\<close> while the connection is manually disconnected rejects the
  returned promise at once with code 400 ("Connection manually disconnected"); a call while
  the connection is not manually disconnected but the socket is not open rejects it at once
  with code 503 ("WebSocket is not connected"). In both cases nothing is sent, and no entry
  of \<^verbatim>\<open>pendingRequests\<close> and no timer is created: apart from the promise counter and the
  rejection the state is unchanged.
\<close>

theorem request_fails_fast:
  "(isManuallyDisconnected s \<longrightarrow>
      settleCalls (request endpoint data t rid s) =
        settleCalls s @ [(nextPromise s, RejectedWith 400 ''Connection manually disconnected'')]) \<and>
   (\<not> isManuallyDisconnected s \<and> readyState s \<noteq> OPEN \<longrightarrow>
      settleCalls (request endpoint data t rid s) =
        settleCalls s @ [(nextPromise s, RejectedWith 503 ''WebSocket is not connected'')]) \<and>
   (isManuallyDisconnected s \<or> readyState s \<noteq> OPEN \<longrightarrow>
      sent (request endpoint data t rid s) = sent s \<and>
      pendingRequests (request endpoint data t rid s) = pendingRequests s \<and>
      timers (request endpoint data t rid s) = timers s \<and>
      nextTimer (request endpoint data t rid s) = nextTimer s \<and>
      request endpoint data t rid s =
        s\<lparr>nextPromise := Suc (nextPromise s),
          settleCalls := settleCalls (request endpoint data t rid s)\<rparr>)"
  by (auto simp: request_def settle_def Let_def)

theorem request_fails_fast_witness:
  "isManuallyDisconnected (run [User Disconnect] (new_client ''ws:'' ''example.org'' no_options)) \<and>
   settleCalls (request ''get_user'' (JNum 1) 300000 ''r1''
                  (run [User Disconnect] (new_client ''ws:'' ''example.org'' no_options))) =
     [(0, RejectedWith 400 ''Connection manually disconnected'')] \<and>
   \<not> isManuallyDisconnected (new_client ''ws:'' ''example.org'' no_options) \<and>
   readyState (new_client ''ws:'' ''example.org'' no_options) \<noteq> OPEN \<and>
   settleCalls (request ''get_user'' (JNum 1) 300000 ''r1''
                  (new_client ''ws:'' ''example.org'' no_options)) =
     [(0, RejectedWith 503 ''WebSocket is not connected'')] \<and>
   sent (request ''get_user'' (JNum 1) 300000 ''r1''
                  (new_client ''ws:'' ''example.org'' no_options)) = [] \<and>
   pendingRequests (request ''get_user'' (JNum 1) 300000 ''r1''
                  (new_client ''ws:'' ''example.org'' no_options)) = [] \<and>
   timers (request ''get_user'' (JNum 1) 300000 ''r1''
                  (new_client ''ws:'' ''example.org'' no_options)) = []"
proof -
  let ?c = "new_client ''ws:'' ''example.org'' no_options"
  let ?d = "run [User Disconnect] ?c"
  have c: "\<not> isManuallyDisconnected ?c" "readyState ?c \<noteq> OPEN"
    "settleCalls ?c = []" "nextPromise ?c = 0" "sent ?c = []" "pendingRequests ?c = []"
    "timers ?c = []"
    by (simp_all add: new_client_def no_options_def initializeSocket_def)
  have d: "isManuallyDisconnected ?d" "settleCalls ?d = []" "nextPromise ?d = 0"
    by (simp_all add: new_client_def no_options_def initializeSocket_def disconnect_def
        socket_close_def)
  show ?thesis
    using request_fails_fast[of ?d "''get_user''" "JNum 1" 300000 "''r1''"]
      request_fails_fast[of ?c "''get_user''" "JNum 1" 300000 "''r1''"] c d
    by simp
qed

subsection \<open>What user code can do to the tables of the correlator\<close>

text \<open>
  Calls made by user code, from a handler or from outside, add timers and call the
  continuations of promises they create; only \<open>request\<close> touches the tables at all, and it
  touches the entry of its own identifier only.
\<close>

lemma only_adds_refl: "only_adds s s"
  by (simp add: only_adds_def)

lemma only_adds_trans:
  assumes "only_adds s s'" "only_adds s' s''"
  shows "only_adds s s''"
proof -
  obtain t1 c1 where 1: "timers s' = timers s @ t1" "settleCalls s' = settleCalls s @ c1"
    "list_all (\<lambda>c. nextPromise s \<le> fst c) c1" "nextPromise s \<le> nextPromise s'"
    using assms(1) by (auto simp: only_adds_def)
  obtain t2 c2 where 2: "timers s'' = timers s' @ t2" "settleCalls s'' = settleCalls s' @ c2"
    "list_all (\<lambda>c. nextPromise s' \<le> fst c) c2" "nextPromise s' \<le> nextPromise s''"
    using assms(2) by (auto simp: only_adds_def)
  have "list_all (\<lambda>c. nextPromise s \<le> fst c) c2"
    using 2(3) 1(4) by (auto simp: list_all_iff)
  then have "list_all (\<lambda>c. nextPromise s \<le> fst c) (c1 @ c2)"
    using 1(3) by simp
  moreover have "settleCalls s'' = settleCalls s @ (c1 @ c2)" "timers s'' = timers s @ (t1 @ t2)"
    using 1 2 by simp_all
  ultimately show ?thesis
    unfolding only_adds_def using 1(4) 2(4) by (metis le_trans)
qed

lemma only_adds_same:
  "timers s' = timers s \<Longrightarrow> settleCalls s' = settleCalls s \<Longrightarrow>
   nextPromise s' = nextPromise s \<Longrightarrow> only_adds s s'"
  by (simp add: only_adds_def)

lemma request_only_adds: "only_adds s (request ep d t rid s)"
  by (simp add: only_adds_def request_def Let_def settle_def setTimeout_def send_json_def
      split: ready_state.splits)

lemma request_other_entries:
  "rid' \<noteq> rid \<Longrightarrow>
   map_of (pendingRequests (request ep d t rid s)) rid' = map_of (pendingRequests s) rid'"
  by (simp add: request_def Let_def settle_def setTimeout_def send_json_def
      AList.update_conv' split: ready_state.splits)

lemma send_json_state:
  "state_of (send_json f s) =
     (if frame_serialisable f \<and> readyState s = OPEN then s\<lparr>sent := sent s @ [f]\<rparr> else s)"
  by (simp add: send_json_def split: ready_state.splits)

lemma emit_state:
  "state_of (emit e d s) =
     (if readyState s \<noteq> OPEN then
        (if isManuallyDisconnected s then s else s\<lparr>eventQueue := eventQueue s @ [(e, d)]\<rparr>)
      else if serialisable d then s\<lparr>sent := sent s @ [EventFrame e d]\<rparr> else s)"
  by (simp add: emit_def send_json_def)

lemma user_call_no_request:
  assumes "request_id c = []"
  shows "pendingRequests (state_of (user_call c s)) = pendingRequests s \<and>
         timers (state_of (user_call c s)) = timers s \<and>
         settleCalls (state_of (user_call c s)) = settleCalls s \<and>
         nextPromise (state_of (user_call c s)) = nextPromise s"
  using assms
  by (cases c)
     (simp_all add: on_def emit_state close_def socket_close_def onRequest_def
        enableServerRequests_def disableServerRequests_def reconnectResume_def
        initializeSocket_def disconnect_def respond_def sendResponse_def send_json_state)

lemma user_call_only_adds: "only_adds s (state_of (user_call c s))"
proof (cases "request_id c = []")
  case True
  then show ?thesis using user_call_no_request[of c s] by (intro only_adds_same) simp_all
next
  case False
  then obtain ep d t rid where "c = Request ep d t rid" by (cases c) simp_all
  then show ?thesis by (simp add: request_only_adds)
qed

lemma user_call_other_entries:
  assumes "rid \<notin> set (request_id c)"
  shows "map_of (pendingRequests (state_of (user_call c s))) rid = map_of (pendingRequests s) rid"
proof (cases "request_id c = []")
  case True
  then show ?thesis using user_call_no_request[of c s] by simp
next
  case False
  then obtain ep d t rid' where c: "c = Request ep d t rid'" by (cases c) simp_all
  then have "rid \<noteq> rid'" using assms by simp
  then show ?thesis by (simp add: c request_other_entries)
qed

lemma do_calls_no_request:
  "request_ids cs = [] \<Longrightarrow>
   pendingRequests (state_of (do_calls cs s)) = pendingRequests s \<and>
   timers (state_of (do_calls cs s)) = timers s \<and>
   settleCalls (state_of (do_calls cs s)) = settleCalls s \<and>
   nextPromise (state_of (do_calls cs s)) = nextPromise s"
proof (induction cs arbitrary: s)
  case Nil
  then show ?case by simp
next
  case (Cons c cs)
  then have c: "request_id (fst c) = []" and cs: "request_ids cs = []"
    by (simp_all add: request_ids_def)
  note u = user_call_no_request[OF c, of s]
  show ?case
  proof (cases "user_call (fst c) s")
    case (Done s')
    then show ?thesis using u Cons.IH[OF cs, of s'] by simp
  next
    case (Threw x s')
    then show ?thesis using u Cons.IH[OF cs, of s'] by simp
  qed
qed

lemma do_calls_only_adds: "only_adds s (state_of (do_calls cs s))"
proof (induction cs arbitrary: s)
  case Nil
  then show ?case by (simp add: only_adds_refl)
next
  case (Cons c cs)
  note u = user_call_only_adds[of s "fst c"]
  show ?case
  proof (cases "user_call (fst c) s")
    case (Done s')
    then show ?thesis using u Cons.IH[of s'] by (auto intro: only_adds_trans)
  next
    case (Threw x s')
    then show ?thesis using u Cons.IH[of s'] by (auto intro: only_adds_trans)
  qed
qed

lemma do_calls_other_entries:
  "rid \<notin> set (request_ids cs) \<Longrightarrow>
   map_of (pendingRequests (state_of (do_calls cs s))) rid = map_of (pendingRequests s) rid"
proof (induction cs arbitrary: s)
  case Nil
  then show ?case by simp
next
  case (Cons c cs)
  then have c: "rid \<notin> set (request_id (fst c))" and cs: "rid \<notin> set (request_ids cs)"
    by (simp_all add: request_ids_def)
  note u = user_call_other_entries[OF c, of s]
  show ?case
  proof (cases "user_call (fst c) s")
    case (Done s')
    then show ?thesis using u Cons.IH[OF cs, of s'] by simp
  next
    case (Threw x s')
    then show ?thesis using u Cons.IH[OF cs, of s'] by simp
  qed
qed

lemma state_of_react: "state_of (react r s) = state_of (do_calls (fst r) s)"
  by (cases "do_calls (fst r) s") (simp_all add: react_def split: option.splits)

lemma state_of_call_handler:
  "state_of (call_handler hs n args s) =
     (case events s n of
        None \<Rightarrow> s
      | Some h \<Rightarrow> state_of (do_calls (fst (hs h args))
                              (s\<lparr>handlerCalls := handlerCalls s @ [(h, args)]\<rparr>)))"
  by (simp add: call_handler_def state_of_react split: option.splits)

lemma only_adds_call_handler: "only_adds s (state_of (call_handler hs n args s))"
proof (cases "events s n")
  case None
  then show ?thesis by (simp add: call_handler_def only_adds_refl)
next
  case (Some h)
  let ?s0 = "s\<lparr>handlerCalls := handlerCalls s @ [(h, args)]\<rparr>"
  have "only_adds s ?s0" by (simp add: only_adds_same)
  moreover have "only_adds ?s0 (state_of (do_calls (fst (hs h args)) ?s0))"
    by (rule do_calls_only_adds)
  ultimately show ?thesis
    by (simp add: state_of_call_handler Some) (rule only_adds_trans)
qed

lemma tables_send_json: "tables (state_of (send_json f s)) = tables s"
  by (simp add: tables_def send_json_state)

lemma tables_call_handler:
  "tables (state_of (call_handler hs n args s)) = tables s \<or>
   (\<exists>h a s0. tables s0 = tables s \<and>
      tables (state_of (call_handler hs n args s)) = tables (state_of (do_calls (fst (hs h a)) s0)))"
proof (cases "events s n")
  case None
  then show ?thesis by (simp add: call_handler_def)
next
  case (Some h)
  let ?s0 = "s\<lparr>handlerCalls := handlerCalls s @ [(h, args)]\<rparr>"
  have "tables ?s0 = tables s" by (simp add: tables_def)
  moreover have "state_of (call_handler hs n args s) = state_of (do_calls (fst (hs h args)) ?s0)"
    by (simp add: state_of_call_handler Some)
  ultimately show ?thesis by metis
qed

lemma tables_handleIncomingRequest:
  "tables (state_of (handleIncomingRequest hs i ep d s)) = tables s \<or>
   (\<exists>h a s0. tables s0 = tables s \<and>
      tables (state_of (handleIncomingRequest hs i ep d s)) =
        tables (state_of (do_calls (fst (hs h a)) s0)))"
proof (cases "find_handler s ep")
  case None
  then show ?thesis
    by (simp add: handleIncomingRequest_def sendResponse_def tables_send_json)
next
  case (Some h)
  have "tables (state_of (handleIncomingRequest hs i ep d s)) =
          tables (state_of (react (hs h [d]) s))"
  proof (cases "react (hs h [d]) s")
    case (Done s')
    then show ?thesis by (simp add: handleIncomingRequest_def Some)
  next
    case (Threw x s')
    then show ?thesis
      by (cases x)
         (simp_all add: handleIncomingRequest_def Some handler_threw_def sendResponse_def
            tables_send_json)
  qed
  then have "tables (state_of (handleIncomingRequest hs i ep d s)) =
          tables (state_of (do_calls (fst (hs h [d])) s))"
    by (simp add: state_of_react)
  then show ?thesis by blast
qed

subsection \<open>Responses with a falsy payload\<close>

text \<open>
  A frame whose response has falsy data and a falsy error: whatever else it holds, the
  tables change only through the calls of the handler it reaches, if it reaches one.
\<close>

lemma tables_dispatch_falsy:
  assumes "\<not> truthy (field (field v ''response'') ''data'')"
    and "\<not> truthy (field (field v ''response'') ''error'')"
  shows "tables (state_of (dispatch hs v s)) = tables s \<or>
   (\<exists>h a s0. tables s0 = tables s \<and>
      tables (state_of (dispatch hs v s)) = tables (state_of (do_calls (fst (hs h a)) s0)))"
proof -
  have h: "tables (state_of (call_handler hs n args s)) = tables s \<or>
   (\<exists>h a s0. tables s0 = tables s \<and>
      tables (state_of (call_handler hs n args s)) = tables (state_of (do_calls (fst (hs h a)) s0)))"
    for n args by (rule tables_call_handler)
  note r = tables_handleIncomingRequest[of hs "field (field v ''request'') ''id''"
      "field (field v ''request'') ''endpoint''" "field (field v ''request'') ''data''" s]
  show ?thesis
    using assms r h[of "''connect''" "[]"]
    by (cases "field v ''event''")
       (simp_all add: dispatch_def Let_def h)
qed

text \<open>
  Claim C9. An inbound frame whose \<^verbatim>\<open>response\<close> has no (or a falsy) \<^verbatim>\<open>error\<close> and a falsy
  \<^verbatim>\<open>data\<close> (\<^verbatim>\<open>null\<close>, \<^verbatim>\<open>0\<close>, \<^verbatim>\<open>false\<close>, the empty string, or none) is not handed to
  \<^verbatim>\<open>handleIncomingResponse\<close>, whatever identifier it carries. If the handlers issue no
  request while the frame is processed, the table of pending requests, the live timers and
  the calls of promise continuations are the same after \<^verbatim>\<open>onmessage\<close> as before. Whatever
  the handlers do, no timer is cancelled, continuations are called only for promises
  created while the frame is processed, and the entry of every identifier that the
  handlers do not use for a request of their own is the same as before. A request with the
  identifier of the frame therefore stays pending, with its deadline timer live, until the
  timer fires or the socket closes.
\<close>

theorem falsy_response_is_not_routed:
  assumes "\<not> truthy (field (field v ''response'') ''data'')"
    and "\<not> truthy (field (field v ''response'') ''error'')"
  shows "((\<forall>h args. request_ids (fst (hs h args)) = []) \<longrightarrow>
            pendingRequests (onmessage hs (Parsed v) s) = pendingRequests s \<and>
            timers (onmessage hs (Parsed v) s) = timers s \<and>
            settleCalls (onmessage hs (Parsed v) s) = settleCalls s) \<and>
         (\<exists>new. timers (onmessage hs (Parsed v) s) = timers s @ new) \<and>
         (\<exists>new. settleCalls (onmessage hs (Parsed v) s) = settleCalls s @ new \<and>
                 list_all (\<lambda>c. nextPromise s \<le> fst c) new) \<and>
         (\<forall>rid. (\<forall>h args. rid \<notin> set (request_ids (fst (hs h args)))) \<longrightarrow>
                map_of (pendingRequests (onmessage hs (Parsed v) s)) rid =
                  map_of (pendingRequests s) rid)"
proof -
  let ?s' = "state_of (dispatch hs v s)"
  have om: "onmessage hs (Parsed v) s = ?s'" by (simp add: onmessage_def)
  consider (same) "tables ?s' = tables s"
    | (calls) h a s0 where "tables s0 = tables s"
        "tables ?s' = tables (state_of (do_calls (fst (hs h a)) s0))"
    using tables_dispatch_falsy[OF assms, of hs s] by blast
  then show ?thesis
  proof cases
    case same
    then show ?thesis by (simp add: om tables_def)
  next
    case calls
    let ?t = "state_of (do_calls (fst (hs h a)) s0)"
    have eq: "pendingRequests ?s' = pendingRequests ?t" "timers ?s' = timers ?t"
      "settleCalls ?s' = settleCalls ?t"
      and eq0: "pendingRequests s0 = pendingRequests s" "timers s0 = timers s"
      "settleCalls s0 = settleCalls s" "nextPromise s0 = nextPromise s"
      using calls by (simp_all add: tables_def)
    have A: "pendingRequests ?t = pendingRequests s \<and> timers ?t = timers s \<and>
             settleCalls ?t = settleCalls s"
      if "\<forall>h args. request_ids (fst (hs h args)) = []"
      using do_calls_no_request[of "fst (hs h a)" s0] that eq0 by simp
    have B: "(\<exists>new. timers ?t = timers s @ new) \<and>
         (\<exists>new. settleCalls ?t = settleCalls s @ new \<and>
                 list_all (\<lambda>c. nextPromise s \<le> fst c) new)"
      using do_calls_only_adds[of s0 "fst (hs h a)"] eq0 by (simp add: only_adds_def)
    have C: "map_of (pendingRequests ?t) rid = map_of (pendingRequests s) rid"
      if "\<forall>h args. rid \<notin> set (request_ids (fst (hs h args)))" for rid
      using do_calls_other_entries[of rid "fst (hs h a)" s0] that eq0 by simp
    show ?thesis
      unfolding om eq using A B C by blast
  qed
qed

theorem falsy_response_is_not_routed_witness:
  "\<not> truthy (field (field (JObj [(''response'', JObj [(''id'', JStr ''r1''), (''data'', JNum 0)])])
                          ''response'') ''data'') \<and>
   \<not> truthy (field (field (JObj [(''response'', JObj [(''id'', JStr ''r1''), (''data'', JNum 0)])])
                          ''response'') ''error'') \<and>
   (\<forall>h args. request_ids (fst (quiet h args)) = []) \<and>
   pendingRequests (run [SocketOpen quiet, User (Request ''get_count'' JNull 300000 ''r1'')]
                      a_client) =
     [(''r1'', \<lparr>promise = 0, timeout = 0\<rparr>)] \<and>
   pendingRequests
     (onmessage quiet
        (Parsed (JObj [(''response'', JObj [(''id'', JStr ''r1''), (''data'', JNum 0)])]))
        (run [SocketOpen quiet, User (Request ''get_count'' JNull 300000 ''r1'')] a_client)) =
     [(''r1'', \<lparr>promise = 0, timeout = 0\<rparr>)] \<and>
   timers
     (onmessage quiet
        (Parsed (JObj [(''response'', JObj [(''id'', JStr ''r1''), (''data'', JNum 0)])]))
        (run [SocketOpen quiet, User (Request ''get_count'' JNull 300000 ''r1'')] a_client)) =
     [(0, RequestDeadline ''r1'' 0, 300000)] \<and>
   settleCalls
     (onmessage quiet
        (Parsed (JObj [(''response'', JObj [(''id'', JStr ''r1''), (''data'', JNum 0)])]))
        (run [SocketOpen quiet, User (Request ''get_count'' JNull 300000 ''r1'')] a_client)) = [] \<and>
   ''r1'' \<notin> set (request_ids [(Request ''other'' JNull 1000 ''r2'', False)]) \<and>
   map_of (pendingRequests
     (onmessage (\<lambda>h args. ([(Request ''other'' JNull 1000 ''r2'', False)], None))
        (Parsed (JObj [(''response'', JObj [(''id'', JStr ''r1''), (''data'', JNum 0)])]))
        (run [SocketOpen quiet, User (Request ''get_count'' JNull 300000 ''r1'')] a_client)))
     ''r1'' = Some \<lparr>promise = 0, timeout = 0\<rparr>"
proof -
  let ?v = "JObj [(''response'', JObj [(''id'', JStr ''r1''), (''data'', JNum 0)])]"
  let ?c = "run [SocketOpen quiet, User (Request ''get_count'' JNull 300000 ''r1'')] a_client"
  let ?hs = "\<lambda>(h::nat) (args::jsval list). ([(Request ''other'' JNull 1000 ''r2'', False)], None::jsval option)"
  have h: "\<not> truthy (field (field ?v ''response'') ''data'')"
    "\<not> truthy (field (field ?v ''response'') ''error'')"
    by simp_all
  have qh: "\<forall>h args. request_ids (fst (quiet h args)) = []"
    by (simp add: quiet_def request_ids_def)
  have nh: "''r1'' \<notin> set (request_ids [(Request ''other'' JNull 1000 ''r2'', False)])"
    by (simp add: request_ids_def)
  then have nh': "\<forall>h args. ''r1'' \<notin> set (request_ids (fst (?hs h args)))"
    by simp
  have vals: "pendingRequests ?c = [(''r1'', \<lparr>promise = 0, timeout = 0\<rparr>)]"
    "timers ?c = [(0, RequestDeadline ''r1'' 0, 300000)]" "settleCalls ?c = []"
    by code_simp+
  note th = falsy_response_is_not_routed[OF h, of quiet ?c, THEN conjunct1, THEN mp, OF qh]
  note th2 = falsy_response_is_not_routed[OF h, of ?hs ?c, THEN conjunct2, THEN conjunct2,
      THEN conjunct2, THEN spec, of "''r1''", THEN mp, OF nh']
  have A: "pendingRequests (onmessage quiet (Parsed ?v) ?c) =
             [(''r1'', \<lparr>promise = 0, timeout = 0\<rparr>)]"
    unfolding th[THEN conjunct1] by (rule vals)
  have B: "timers (onmessage quiet (Parsed ?v) ?c) = [(0, RequestDeadline ''r1'' 0, 300000)]"
    unfolding th[THEN conjunct2, THEN conjunct1] by (rule vals)
  have C: "settleCalls (onmessage quiet (Parsed ?v) ?c) = []"
    unfolding th[THEN conjunct2, THEN conjunct2] by (rule vals)
  have D: "map_of (pendingRequests (onmessage ?hs (Parsed ?v) ?c)) ''r1'' =
             Some \<lparr>promise = 0, timeout = 0\<rparr>"
    unfolding th2 vals by simp
  show ?thesis using h qh vals(1) A B C nh D by (intro conjI)
qed

subsection \<open>What a step can do to the queue\<close>

lemma clearPendingRequests_settleCalls:
  "settleCalls (clearPendingRequests s) =
     settleCalls s @
     map (\<lambda>e. (promise (snd e), RejectedWith 503 ''WebSocket connection closed''))
       (pendingRequests s)"
  by (simp add: clearPendingRequests_def reject_each_settleCalls)

lemma clearPendingRequests_timers:
  "timers (clearPendingRequests s) =
     filter (\<lambda>t. fst t \<notin> set (map (\<lambda>e. timeout (snd e)) (pendingRequests s))) (timers s)"
  by (simp add: clearPendingRequests_def reject_each_timers)

lemma clearPendingRequests_rest:
  "pendingRequests (clearPendingRequests s) = []"
  "readyState (clearPendingRequests s) = readyState s"
  "eventQueue (clearPendingRequests s) = eventQueue s"
  "sent (clearPendingRequests s) = sent s"
  "isManuallyDisconnected (clearPendingRequests s) = isManuallyDisconnected s"
  "shouldReconnect (clearPendingRequests s) = shouldReconnect s"
  "currentAttempt (clearPendingRequests s) = currentAttempt s"
  "reconnectionAttempts (clearPendingRequests s) = reconnectionAttempts s"
  "reconnectionDelay (clearPendingRequests s) = reconnectionDelay s"
  "nextTimer (clearPendingRequests s) = nextTimer s"
  "nextPromise (clearPendingRequests s) = nextPromise s"
  "socketsCreated (clearPendingRequests s) = socketsCreated s"
  "handlerCalls (clearPendingRequests s) = handlerCalls s"
  "events (clearPendingRequests s) = events s"
  by (simp_all add: clearPendingRequests_def reject_each_rest)

lemma handleIncomingResponse_quiet:
  "eventQueue (handleIncomingResponse i d e s) = eventQueue s"
  "isManuallyDisconnected (handleIncomingResponse i d e s) = isManuallyDisconnected s"
  "readyState (handleIncomingResponse i d e s) = readyState s"
  "sent (handleIncomingResponse i d e s) = sent s"
  by (simp_all add: handleIncomingResponse_def Let_def settle_def clearTimeout_def
      split: jsval.splits option.splits)

lemma request_quiet:
  "eventQueue (request ep d t rid s) = eventQueue s"
  "isManuallyDisconnected (request ep d t rid s) = isManuallyDisconnected s"
  "readyState (request ep d t rid s) = readyState s"
  "readyState s \<noteq> OPEN \<Longrightarrow> sent (request ep d t rid s) = sent s"
  by (simp_all add: request_def Let_def settle_def setTimeout_def send_json_def
      split: ready_state.splits)

lemma reconnect_attempt_quiet:
  "eventQueue (reconnect_attempt s) = eventQueue s"
  "isManuallyDisconnected (reconnect_attempt s) = isManuallyDisconnected s"
  "readyState s \<noteq> OPEN \<Longrightarrow> readyState (reconnect_attempt s) \<noteq> OPEN"
  "sent (reconnect_attempt s) = sent s"
  by (simp_all add: reconnect_attempt_def Let_def reconnectResume_def initializeSocket_def)

lemma request_deadline_quiet:
  "eventQueue (request_deadline rid p h s) = eventQueue s"
  "isManuallyDisconnected (request_deadline rid p h s) = isManuallyDisconnected s"
  "readyState (request_deadline rid p h s) = readyState s"
  "sent (request_deadline rid p h s) = sent s"
  by (simp_all add: request_deadline_def settle_def clearTimeout_def)

lemma fire_timer_quiet:
  "eventQueue (fire_timer h s) = eventQueue s"
  "isManuallyDisconnected (fire_timer h s) = isManuallyDisconnected s"
  "readyState s \<noteq> OPEN \<Longrightarrow> readyState (fire_timer h s) \<noteq> OPEN"
  "sent (fire_timer h s) = sent s"
  by (simp_all add: fire_timer_def Let_def reconnect_attempt_quiet request_deadline_quiet
      split: option.splits callback.splits)

lemma run_append: "run (as @ bs) s = run bs (run as s)"
  by (induction as arbitrary: s) simp_all













subsection \<open>Queued events\<close>








subsection \<open>The public close method\<close>


lemma call_handler_silent:
  assumes "silent hs s n args"
  shows "\<exists>s1. call_handler hs n args s = Done s1 \<and>
           (\<exists>l. s1 = s\<lparr>handlerCalls := l\<rparr>)"
proof (cases "events s n")
  case None
  then have "call_handler hs n args s = Done s \<and> s = s\<lparr>handlerCalls := handlerCalls s\<rparr>"
    by (simp add: call_handler_def)
  then show ?thesis by blast
next
  case (Some h)
  then have "call_handler hs n args s = Done (s\<lparr>handlerCalls := handlerCalls s @ [(h, args)]\<rparr>)"
    using assms by (simp add: silent_def call_handler_def react_def)
  then show ?thesis by blast
qed





subsection \<open>The transport closes\<close>

text \<open>
  While the socket is not open, user code cannot touch the pending requests or the
  timers.
\<close>

lemma offline_kept_refl: "offline_kept s s"
  by (simp add: offline_kept_def)

lemma offline_kept_trans:
  "offline_kept s s' \<Longrightarrow> offline_kept s' s'' \<Longrightarrow> offline_kept s s''"
  by (auto simp: offline_kept_def)

lemma offline_kept_user_call: "offline_kept s (state_of (user_call c s))"
proof (cases c)
  case (Emit e d)
  then show ?thesis by (simp add: emit_state offline_kept_def)
next
  case Disconnect
  then show ?thesis by (simp add: disconnect_def socket_close_def offline_kept_def)
next
  case (Respond i d e)
  then show ?thesis
    by (simp add: respond_def sendResponse_def send_json_state offline_kept_def)
next
  case (Request ep d t rid)
  then show ?thesis
    by (simp add: offline_kept_def request_def Let_def settle_def)
next
  case (OnRequest ep h)
  then show ?thesis by (simp add: offline_kept_def onRequest_def)
qed (simp_all add: offline_kept_def on_def close_def socket_close_def
      enableServerRequests_def disableServerRequests_def reconnectResume_def
      initializeSocket_def)

lemma offline_kept_do_calls: "offline_kept s (state_of (do_calls cs s))"
proof (induction cs arbitrary: s)
  case Nil
  then show ?case by (simp add: offline_kept_refl)
next
  case (Cons c cs)
  note u = offline_kept_user_call[of s "fst c"]
  show ?case
  proof (cases "user_call (fst c) s")
    case (Done s')
    then show ?thesis using u Cons.IH[of s'] by (auto intro: offline_kept_trans)
  next
    case (Threw x s')
    then show ?thesis using u Cons.IH[of s'] by (auto intro: offline_kept_trans)
  qed
qed

lemma offline_kept_call_handler: "offline_kept s (state_of (call_handler hs n args s))"
proof (cases "events s n")
  case None
  then show ?thesis by (simp add: call_handler_def offline_kept_refl)
next
  case (Some h)
  let ?s0 = "s\<lparr>handlerCalls := handlerCalls s @ [(h, args)]\<rparr>"
  have "offline_kept s ?s0" by (simp add: offline_kept_def)
  moreover have "offline_kept ?s0 (state_of (do_calls (fst (hs h args)) ?s0))"
    by (rule offline_kept_do_calls)
  ultimately show ?thesis
    by (simp add: state_of_call_handler Some) (rule offline_kept_trans)
qed

lemma tryReconnect_offline:
  assumes "readyState s \<noteq> OPEN"
  shows "pendingRequests (state_of (tryReconnect hs s)) = pendingRequests s"
    and "fst ` set (timers (state_of (tryReconnect hs s))) \<subseteq>
         insert (nextTimer s) (fst ` set (timers s))"
    and "only_adds s (state_of (tryReconnect hs s))"
proof -
  note o = offline_kept_call_handler[of s hs "''reconnect_failed''" "[]"]
  show "pendingRequests (state_of (tryReconnect hs s)) = pendingRequests s"
    using o assms by (simp add: tryReconnect_def setTimeout_def offline_kept_def)
  show "fst ` set (timers (state_of (tryReconnect hs s))) \<subseteq>
         insert (nextTimer s) (fst ` set (timers s))"
    using o assms by (auto simp: tryReconnect_def setTimeout_def offline_kept_def)
  show "only_adds s (state_of (tryReconnect hs s))"
    by (simp add: tryReconnect_def only_adds_call_handler) (simp add: only_adds_def setTimeout_def)
qed

lemma count_list_distinct:
  "distinct xs \<Longrightarrow> x \<in> set xs \<Longrightarrow> count_list xs x = 1"
  by (induction xs) auto

lemma count_list_later:
  "list_all (\<lambda>c. (n::nat) \<le> fst c) xs \<Longrightarrow> p < n \<Longrightarrow>
   count_list xs (p, r) = 0 \<and> count_list (map fst xs) p = 0"
  by (induction xs) auto

text \<open>
  When the \<^verbatim>\<open>disconnect\<close> handler returns, whatever it called, the close of the socket
  rejects every request that was pending with code 503, once, cancels its deadline and
  leaves the table empty.
\<close>

lemma close_rejects_every_pending_request:
  assumes "tables_ok s"
    and "returns (call_handler hs ''disconnect'' [] (s\<lparr>readyState := CLOSED\<rparr>))"
  shows "pendingRequests (state_of (socket_closed hs s)) = []"
    and "list_all
           (\<lambda>e. count_list (drop (length (settleCalls s))
                               (settleCalls (state_of (socket_closed hs s))))
                   (promise (snd e), RejectedWith 503 ''WebSocket connection closed'') = 1 \<and>
                 count_list (map fst (drop (length (settleCalls s))
                                        (settleCalls (state_of (socket_closed hs s)))))
                   (promise (snd e)) = 1 \<and>
                 timeout (snd e) \<notin> fst ` set (timers (state_of (socket_closed hs s))))
           (pendingRequests s)"
proof -
  let ?r = "RejectedWith 503 ''WebSocket connection closed''"
  let ?new = "map (\<lambda>e. (promise (snd e), ?r)) (pendingRequests s)"
  let ?s0 = "s\<lparr>readyState := CLOSED\<rparr>"
  let ?F = "state_of (socket_closed hs s)"
  obtain s1 where c: "call_handler hs ''disconnect'' [] ?s0 = Done s1"
    using assms(2) by (cases "call_handler hs ''disconnect'' [] ?s0") simp_all
  have "offline_kept ?s0 s1"
    using offline_kept_call_handler[of ?s0 hs "''disconnect''" "[]"] by (simp add: c)
  then have off: "readyState s1 \<noteq> OPEN" "pendingRequests s1 = pendingRequests s"
    "timers s1 = timers s" "nextTimer s1 = nextTimer s"
    by (simp_all add: offline_kept_def)
  have "only_adds ?s0 s1"
    using only_adds_call_handler[of ?s0 hs "''disconnect''" "[]"] by (simp add: c)
  then obtain before where b: "settleCalls s1 = settleCalls s @ before"
    "list_all (\<lambda>c. nextPromise s \<le> fst c) before" "nextPromise s \<le> nextPromise s1"
    by (auto simp: only_adds_def)
  let ?s2 = "clearPendingRequests s1"
  have s2: "readyState ?s2 \<noteq> OPEN" "pendingRequests ?s2 = []"
    "settleCalls ?s2 = settleCalls s @ before @ ?new"
    "fst ` set (timers ?s2) \<subseteq>
       fst ` set (timers s) - (\<lambda>e. timeout (snd e)) ` set (pendingRequests s)"
    "nextTimer ?s2 = nextTimer s" "nextPromise s \<le> nextPromise ?s2"
    using off b
    by (auto simp: clearPendingRequests_rest clearPendingRequests_settleCalls
        clearPendingRequests_timers)
  note tr = tryReconnect_offline[OF s2(1), of hs]
  have F: "?F = (if \<not> isManuallyDisconnected ?s2 \<and> shouldReconnect ?s2
                 then state_of (tryReconnect hs ?s2) else ?s2)"
    by (simp add: socket_closed_def onclose_def c Let_def)
  have Fp: "pendingRequests ?F = []"
    unfolding F using tr(1) s2(2) by simp
  have Ft: "fst ` set (timers ?F) \<subseteq> insert (nextTimer s) (fst ` set (timers ?s2))"
    unfolding F using tr(2) s2(5) by auto
  have "only_adds ?s2 ?F"
    unfolding F using tr(3) by (simp add: only_adds_refl)
  then obtain after where a: "settleCalls ?F = settleCalls ?s2 @ after"
    "list_all (\<lambda>c. nextPromise ?s2 \<le> fst c) after"
    by (auto simp: only_adds_def)
  have a': "list_all (\<lambda>c. nextPromise s \<le> fst c) after"
    using a(2) s2(6) by (auto simp: list_all_iff)
  have dr: "drop (length (settleCalls s)) (settleCalls ?F) = before @ ?new @ after"
    by (simp add: a(1) s2(3))
  have d: "distinct (map (\<lambda>e. promise (snd e)) (pendingRequests s))"
    and lt: "list_all (\<lambda>e. timeout (snd e) < nextTimer s \<and> promise (snd e) < nextPromise s)
               (pendingRequests s)"
    using assms(1) by (auto simp: tables_ok_def)
  have d': "distinct ?new"
    using d by (simp add: distinct_map inj_on_def)
  have fst_new: "map fst ?new = map (\<lambda>e. promise (snd e)) (pendingRequests s)"
    by simp
  have one: "count_list (before @ ?new @ after) (promise (snd e), ?r) = 1 \<and>
             count_list (map fst (before @ ?new @ after)) (promise (snd e)) = 1 \<and>
             timeout (snd e) \<notin> fst ` set (timers ?F)"
    if e: "e \<in> set (pendingRequests s)" for e
  proof -
    have p: "promise (snd e) < nextPromise s" and tl: "timeout (snd e) < nextTimer s"
      using lt e by (auto simp: list_all_iff)
    note z1 = count_list_later[OF b(2) p, of ?r] and z2 = count_list_later[OF a' p, of ?r]
    have c1: "count_list ?new (promise (snd e), ?r) = 1"
      using e d' by (intro count_list_distinct) auto
    have c2: "count_list (map fst ?new) (promise (snd e)) = 1"
      unfolding fst_new using e d by (intro count_list_distinct) auto
    have mem: "timeout (snd e) \<in> (\<lambda>e. timeout (snd e)) ` set (pendingRequests s)"
      using e by (rule imageI)
    have t: "timeout (snd e) \<notin> fst ` set (timers ?F)"
    proof
      assume "timeout (snd e) \<in> fst ` set (timers ?F)"
      then have "timeout (snd e) \<in> insert (nextTimer s) (fst ` set (timers ?s2))"
        using Ft by (rule rev_subsetD)
      then have "timeout (snd e) \<in> fst ` set (timers ?s2)"
        using tl by (simp only: insert_iff) simp
      then have "timeout (snd e) \<in>
          fst ` set (timers s) - (\<lambda>e. timeout (snd e)) ` set (pendingRequests s)"
        using s2(4) by (rule rev_subsetD)
      then show False using mem by (simp only: Diff_iff) simp
    qed
    show ?thesis
      using z1 z2 c1 c2 t by (simp del: map_map)
  qed
  show "pendingRequests ?F = []" by (rule Fp)
  show "list_all
           (\<lambda>e. count_list (drop (length (settleCalls s)) (settleCalls ?F))
                   (promise (snd e), ?r) = 1 \<and>
                 count_list (map fst (drop (length (settleCalls s)) (settleCalls ?F)))
                   (promise (snd e)) = 1 \<and>
                 timeout (snd e) \<notin> fst ` set (timers ?F))
           (pendingRequests s)"
    unfolding dr using one by (simp only: list_all_iff) blast
qed

text \<open>
  Claim C2 says that when the transport closes, every request still pending is rejected
  with code 503 exactly once, its deadline timer is cancelled, and the table of pending
  requests is empty afterwards. The code does not do so when the handler registered for
  \<^verbatim>\<open>disconnect\<close> throws: \<^verbatim>\<open>onclose\<close> calls the handler first, outside any \<^verbatim>\<open>try\<close> block, so
  the exception leaves the callback before \<^verbatim>\<open>clearPendingRequests\<close> runs. With one request
  pending on an open connection, the close of the socket then leaves the entry in the
  table, calls no continuation and leaves the deadline timer live; the promise is
  rejected only when the deadline fires, with code 408. With a handler that returns, the
  same close rejects it with code 503.
\<close>

theorem throwing_disconnect_handler_skips_rejection:
  "readyState (run [SocketOpen quiet, User (On ''disconnect'' 1),
                    User (Request ''a'' (JNum 1) 300000 ''r1'')] a_client) = OPEN \<and>
   pendingRequests (run [SocketOpen quiet, User (On ''disconnect'' 1),
                         User (Request ''a'' (JNum 1) 300000 ''r1'')] a_client) =
     [(''r1'', \<lparr>promise = 0, timeout = 0\<rparr>)] \<and>
   \<not> returns (socket_closed (\<lambda>h args. ([], Some (JStr ''boom'')))
                 (run [SocketOpen quiet, User (On ''disconnect'' 1),
                       User (Request ''a'' (JNum 1) 300000 ''r1'')] a_client)) \<and>
   readyState (run [SocketOpen quiet, User (On ''disconnect'' 1),
                    User (Request ''a'' (JNum 1) 300000 ''r1''),
                    SocketClose (\<lambda>h args. ([], Some (JStr ''boom'')))] a_client) = CLOSED \<and>
   pendingRequests (run [SocketOpen quiet, User (On ''disconnect'' 1),
                         User (Request ''a'' (JNum 1) 300000 ''r1''),
                         SocketClose (\<lambda>h args. ([], Some (JStr ''boom'')))] a_client) =
     [(''r1'', \<lparr>promise = 0, timeout = 0\<rparr>)] \<and>
   settleCalls (run [SocketOpen quiet, User (On ''disconnect'' 1),
                     User (Request ''a'' (JNum 1) 300000 ''r1''),
                     SocketClose (\<lambda>h args. ([], Some (JStr ''boom'')))] a_client) = [] \<and>
   timers (run [SocketOpen quiet, User (On ''disconnect'' 1),
                User (Request ''a'' (JNum 1) 300000 ''r1''),
                SocketClose (\<lambda>h args. ([], Some (JStr ''boom'')))] a_client) =
     [(0, RequestDeadline ''r1'' 0, 300000)] \<and>
   settleCalls (run [SocketOpen quiet, User (On ''disconnect'' 1),
                     User (Request ''a'' (JNum 1) 300000 ''r1''),
                     SocketClose (\<lambda>h args. ([], Some (JStr ''boom''))),
                     TimerFires 0] a_client) =
     [(0, RejectedWith 408 ''Request timed out'')] \<and>
   settleCalls (run [SocketOpen quiet, User (On ''disconnect'' 1),
                     User (Request ''a'' (JNum 1) 300000 ''r1''),
                     SocketClose quiet] a_client) =
     [(0, RejectedWith 503 ''WebSocket connection closed'')]"
  by code_simp

subsection \<open>Manual disconnect\<close>

text \<open>
  While the client is manually disconnected, with its socket not open and its queue
  empty, no step but an open sends anything, queues anything or ends that condition,
  whatever the handlers called during the step do.
\<close>

lemma stays_disconnected_refl: "stays_disconnected s s"
  by (simp add: stays_disconnected_def)

lemma stays_disconnected_trans:
  "stays_disconnected s s' \<Longrightarrow> stays_disconnected s' s'' \<Longrightarrow> stays_disconnected s s''"
  by (auto simp: stays_disconnected_def)

lemma stays_disconnected_same:
  "isManuallyDisconnected s' = isManuallyDisconnected s \<Longrightarrow> eventQueue s' = eventQueue s \<Longrightarrow>
   sent s' = sent s \<Longrightarrow> (readyState s \<noteq> OPEN \<Longrightarrow> readyState s' \<noteq> OPEN) \<Longrightarrow>
   stays_disconnected s s'"
  by (auto simp: stays_disconnected_def)

lemma stays_disconnected_user_call: "stays_disconnected s (state_of (user_call c s))"
proof (cases c)
  case (Emit e d)
  then show ?thesis by (simp add: emit_state stays_disconnected_def)
next
  case Disconnect
  then show ?thesis by (simp add: disconnect_def socket_close_def stays_disconnected_def)
next
  case (Respond i d e)
  then show ?thesis
    by (simp add: respond_def sendResponse_def send_json_state stays_disconnected_def)
next
  case (Request ep d t rid)
  then show ?thesis by (auto simp: stays_disconnected_def request_quiet)
qed (simp_all add: stays_disconnected_same on_def close_def socket_close_def onRequest_def
      enableServerRequests_def disableServerRequests_def reconnectResume_def
      initializeSocket_def)

lemma stays_disconnected_do_calls: "stays_disconnected s (state_of (do_calls cs s))"
proof (induction cs arbitrary: s)
  case Nil
  then show ?case by (simp add: stays_disconnected_refl)
next
  case (Cons c cs)
  note u = stays_disconnected_user_call[of s "fst c"]
  show ?case
  proof (cases "user_call (fst c) s")
    case (Done s')
    then show ?thesis using u Cons.IH[of s'] by (auto intro: stays_disconnected_trans)
  next
    case (Threw x s')
    then show ?thesis using u Cons.IH[of s'] by (auto intro: stays_disconnected_trans)
  qed
qed

lemma stays_disconnected_call_handler:
  "stays_disconnected s (state_of (call_handler hs n args s))"
proof (cases "events s n")
  case None
  then show ?thesis by (simp add: call_handler_def stays_disconnected_refl)
next
  case (Some h)
  let ?s0 = "s\<lparr>handlerCalls := handlerCalls s @ [(h, args)]\<rparr>"
  have "stays_disconnected s ?s0" by (simp add: stays_disconnected_same)
  moreover have "stays_disconnected ?s0 (state_of (do_calls (fst (hs h args)) ?s0))"
    by (rule stays_disconnected_do_calls)
  ultimately show ?thesis
    by (simp add: state_of_call_handler Some) (rule stays_disconnected_trans)
qed

lemma stays_disconnected_tryReconnect: "stays_disconnected s (state_of (tryReconnect hs s))"
  by (simp add: tryReconnect_def stays_disconnected_call_handler setTimeout_def
      stays_disconnected_same)

lemma stays_disconnected_onclose: "stays_disconnected s (state_of (onclose hs s))"
proof (cases "call_handler hs ''disconnect'' [] s")
  case (Threw x s1)
  then show ?thesis using stays_disconnected_call_handler[of s hs "''disconnect''" "[]"]
    by (simp add: onclose_def)
next
  case (Done s1)
  then have 1: "stays_disconnected s s1"
    using stays_disconnected_call_handler[of s hs "''disconnect''" "[]"] by simp
  have 2: "stays_disconnected s1 (clearPendingRequests s1)"
    by (simp add: stays_disconnected_same clearPendingRequests_rest)
  have 3: "stays_disconnected (clearPendingRequests s1)
             (state_of (tryReconnect hs (clearPendingRequests s1)))"
    by (rule stays_disconnected_tryReconnect)
  have 4: "stays_disconnected s (clearPendingRequests s1)"
    using 1 2 by (rule stays_disconnected_trans)
  have "stays_disconnected s (state_of (tryReconnect hs (clearPendingRequests s1)))"
    using 4 3 by (rule stays_disconnected_trans)
  with 4 show ?thesis by (simp add: onclose_def Done Let_def)
qed

lemma stays_disconnected_send_json: "stays_disconnected s (state_of (send_json f s))"
  by (simp add: send_json_state stays_disconnected_def)

lemma stays_disconnected_handleIncomingRequest:
  "stays_disconnected s (state_of (handleIncomingRequest hs i ep d s))"
proof (cases "find_handler s ep")
  case None
  then show ?thesis
    by (simp add: handleIncomingRequest_def sendResponse_def stays_disconnected_send_json)
next
  case (Some h)
  have r: "stays_disconnected s (state_of (react (hs h [d]) s))"
    by (simp add: state_of_react stays_disconnected_do_calls)
  show ?thesis
  proof (cases "react (hs h [d]) s")
    case (Done s')
    then show ?thesis using r by (simp add: handleIncomingRequest_def Some)
  next
    case (Threw x s')
    then have "stays_disconnected s' (state_of (handleIncomingRequest hs i ep d s))"
      by (cases x)
         (simp_all add: handleIncomingRequest_def Some handler_threw_def sendResponse_def
            stays_disconnected_send_json stays_disconnected_refl)
    then show ?thesis using r Threw by (auto intro: stays_disconnected_trans)
  qed
qed

lemma stays_disconnected_dispatch: "stays_disconnected s (state_of (dispatch hs v s))"
  by (simp add: dispatch_def Let_def stays_disconnected_refl
      stays_disconnected_handleIncomingRequest stays_disconnected_call_handler
      stays_disconnected_same handleIncomingResponse_quiet split: jsval.splits)

lemma stays_disconnected_step: "\<not> is_open a \<Longrightarrow> stays_disconnected s (step a s)"
proof (cases a)
  case (SocketClose hs)
  have "stays_disconnected s (s\<lparr>readyState := CLOSED\<rparr>)"
    by (simp add: stays_disconnected_same)
  moreover have "stays_disconnected (s\<lparr>readyState := CLOSED\<rparr>)
                   (state_of (onclose hs (s\<lparr>readyState := CLOSED\<rparr>)))"
    by (rule stays_disconnected_onclose)
  ultimately have "stays_disconnected s (state_of (socket_closed hs s))"
    unfolding socket_closed_def by (rule stays_disconnected_trans)
  then show ?thesis by (simp add: SocketClose stays_disconnected_refl)
next
  case (SocketMessage hs m)
  then show ?thesis
    by (cases m) (simp_all add: onmessage_def stays_disconnected_refl stays_disconnected_dispatch)
qed (simp_all add: stays_disconnected_user_call retired_socket_closed_def
      stays_disconnected_onclose stays_disconnected_same fire_timer_quiet)

lemma stays_disconnected_run:
  "list_all (\<lambda>a. \<not> is_open a) as \<Longrightarrow> stays_disconnected s (run as s)"
proof (induction as arbitrary: s)
  case Nil
  then show ?case by (simp add: stays_disconnected_refl)
next
  case (Cons a as)
  then have "stays_disconnected s (step a s)" "stays_disconnected (step a s) (run as (step a s))"
    by (simp_all add: stays_disconnected_step)
  then show ?case by (simp add: stays_disconnected_trans[of s "step a s"])
qed

text \<open>
  \<open>disconnect\<close> does nothing when the socket is neither open nor connecting. Otherwise it
  sets \<^verbatim>\<open>isManuallyDisconnected\<close>, clears \<^verbatim>\<open>shouldReconnect\<close>, empties the event queue and
  closes the socket; from then until the socket next opens an \<open>emit\<close> leaves the state as
  it is, nothing is sent and the queue stays empty.
\<close>

lemma disconnect_when_closed:
  "readyState s \<noteq> OPEN \<Longrightarrow> readyState s \<noteq> CONNECTING \<Longrightarrow> disconnect s = s"
  by (simp add: disconnect_def)

lemma disconnect_when_open:
  "readyState s = OPEN \<or> readyState s = CONNECTING \<Longrightarrow>
   disconnect s = s\<lparr>isManuallyDisconnected := True, shouldReconnect := False, eventQueue := [],
                    readyState := CLOSING\<rparr>"
  by (auto simp: disconnect_def socket_close_def)

lemma events_dropped_until_next_open:
  assumes "readyState s = OPEN \<or> readyState s = CONNECTING"
    and "list_all (\<lambda>a. \<not> is_open a) as"
  shows "step (User (Emit event data)) (run as (disconnect s)) = run as (disconnect s)"
    and "sent (run as (disconnect s)) = sent s"
    and "eventQueue (run as (disconnect s)) = []"
    and "sent (run (as @ User (Emit event data) # bs) (disconnect s)) =
         sent (run (as @ bs) (disconnect s))"
proof -
  note d = disconnect_when_open[OF assms(1)]
  have "stays_disconnected (disconnect s) (run as (disconnect s))"
    using assms(2) by (rule stays_disconnected_run)
  then have w: "isManuallyDisconnected (run as (disconnect s))"
    "readyState (run as (disconnect s)) \<noteq> OPEN" "eventQueue (run as (disconnect s)) = []"
    "sent (run as (disconnect s)) = sent (disconnect s)"
    by (simp_all add: stays_disconnected_def d)
  then have e: "state_of (emit event data (run as (disconnect s))) = run as (disconnect s)"
    by (simp add: emit_state)
  then show "step (User (Emit event data)) (run as (disconnect s)) = run as (disconnect s)"
    by simp
  show "sent (run as (disconnect s)) = sent s" using w(4) by (simp add: d)
  show "eventQueue (run as (disconnect s)) = []" by (rule w(3))
  show "sent (run (as @ User (Emit event data) # bs) (disconnect s)) =
        sent (run (as @ bs) (disconnect s))"
    by (simp add: run_append e)
qed

text \<open>
  Claim C7 says that after a \<open>disconnect\<close> that takes effect, every event emitted before
  the connection is resumed is never sent. The code does not ensure it, because
  \<open>disconnect\<close> cancels no timer: a reconnection timer scheduled by an earlier close
  survives it and resumes the connection by itself. Here the socket opened and closed
  (timer 0 is scheduled with delay 1000) and the user reopened it with
  \<^verbatim>\<open>reconnectResume\<close> before the timer fired. After \<open>disconnect\<close> and the close of the socket
  the client is manually disconnected, reconnection is disabled and timer 0 is still live.
  The event \<^verbatim>\<open>x\<close> emitted then is dropped. When timer 0 fires, the client connects again;
  the open clears the flag, and the event \<^verbatim>\<open>y\<close>, emitted after \<open>disconnect\<close> with no
  \<^verbatim>\<open>reconnectResume\<close> called by the user since, is sent.
\<close>

theorem stale_reconnect_timer_undoes_disconnect:
  "readyState (run [SocketOpen quiet, SocketClose quiet, User ReconnectResume,
                    SocketOpen quiet] a_client) = OPEN \<and>
   timers (run [SocketOpen quiet, SocketClose quiet, User ReconnectResume,
                SocketOpen quiet] a_client) = [(0, Reconnect, 1000)] \<and>
   isManuallyDisconnected
     (run [SocketOpen quiet, SocketClose quiet, User ReconnectResume, SocketOpen quiet,
           User Disconnect, SocketClose quiet] a_client) \<and>
   \<not> shouldReconnect
     (run [SocketOpen quiet, SocketClose quiet, User ReconnectResume, SocketOpen quiet,
           User Disconnect, SocketClose quiet] a_client) \<and>
   timers (run [SocketOpen quiet, SocketClose quiet, User ReconnectResume, SocketOpen quiet,
                User Disconnect, SocketClose quiet] a_client) = [(0, Reconnect, 1000)] \<and>
   readyState
     (run [SocketOpen quiet, SocketClose quiet, User ReconnectResume, SocketOpen quiet,
           User Disconnect, SocketClose quiet, User (Emit ''x'' (JNum 1)), TimerFires 0]
        a_client) = CONNECTING \<and>
   \<not> isManuallyDisconnected
     (run [SocketOpen quiet, SocketClose quiet, User ReconnectResume, SocketOpen quiet,
           User Disconnect, SocketClose quiet, User (Emit ''x'' (JNum 1)), TimerFires 0,
           SocketOpen quiet] a_client) \<and>
   sent (run [SocketOpen quiet, SocketClose quiet, User ReconnectResume, SocketOpen quiet,
              User Disconnect, SocketClose quiet, User (Emit ''x'' (JNum 1)), TimerFires 0,
              SocketOpen quiet, User (Emit ''y'' (JNum 2))] a_client) =
     [EventFrame ''y'' (JNum 2)]"
  by code_simp

subsection \<open>Settling a request\<close>

text \<open>
  A response whose identifier is in the table settles the entry's promise, removes the
  entry and clears its timer; a response whose identifier is not in the table, and a timer
  that is no longer live, do nothing; a deadline that fires removes the entry and rejects
  with code 408.
\<close>

lemma response_settles_and_removes:
  assumes "map_of (pendingRequests s) rid = Some p"
  shows "pendingRequests (handleIncomingResponse (JStr rid) d e s) =
           AList.delete rid (pendingRequests s) \<and>
         timers (handleIncomingResponse (JStr rid) d e s) =
           filter (\<lambda>t. fst t \<noteq> timeout p) (timers s) \<and>
         settleCalls (handleIncomingResponse (JStr rid) d e s) =
           settleCalls s @
           [(promise p,
             if truthy e
             then RejectedError
                    (if truthy (field e ''message'') then field e ''message''
                     else JStr ''Unknown Error'')
                    (if truthy (field e ''code'') then field e ''code'' else JNum 500)
             else Resolved d)]"
  using assms
  by (simp add: handleIncomingResponse_def Let_def settle_def clearTimeout_def)

lemma response_without_entry_is_ignored:
  "map_of (pendingRequests s) rid = None \<Longrightarrow> handleIncomingResponse (JStr rid) d e s = s"
  by (simp add: handleIncomingResponse_def)

lemma dead_timer_does_nothing:
  "map_of (timers s) h = None \<Longrightarrow> fire_timer h s = s"
  by (simp add: fire_timer_def)

lemma deadline_settles_and_removes:
  assumes "map_of (timers s) h = Some (RequestDeadline rid p, d)"
  shows "pendingRequests (fire_timer h s) = AList.delete rid (pendingRequests s) \<and>
         timers (fire_timer h s) = filter (\<lambda>t. fst t \<noteq> h) (timers s) \<and>
         settleCalls (fire_timer h s) = settleCalls s @ [(p, RejectedWith 408 ''Request timed out'')]"
  using assms
  by (simp add: fire_timer_def Let_def request_deadline_def settle_def clearTimeout_def)

text \<open>
  A request on an open connection whose frame can be serialised sends the frame, adds an
  entry for its identifier and a live deadline timer, and calls no continuation.
\<close>

lemma request_sent_registers_entry:
  assumes "\<not> isManuallyDisconnected s" "readyState s = OPEN" "serialisable d"
  shows "sent (request ep d t rid s) = sent s @ [RequestFrame rid ep d] \<and>
         pendingRequests (request ep d t rid s) =
           AList.update rid \<lparr>promise = nextPromise s, timeout = nextTimer s\<rparr> (pendingRequests s) \<and>
         timers (request ep d t rid s) =
           timers s @ [(nextTimer s, RequestDeadline rid (nextPromise s), t)] \<and>
         settleCalls (request ep d t rid s) = settleCalls s"
  using assms by (simp add: request_def Let_def setTimeout_def send_json_def)

text \<open>
  Claim C1 says that the entry of every request identifier is settled exactly once, by a
  response, a timeout or a close, and leaves the table when it is settled. The code does
  not do so when sending the request frame throws: on an open connection,
  \<^verbatim>\<open>request("save", 10n)\<close> registers the entry and its timer, \<^verbatim>\<open>JSON.stringify\<close> throws on
  the BigInt, and the \<^verbatim>\<open>catch\<close> block rejects the promise with code 500 but neither removes
  the entry nor clears the timer. Nothing was sent. The entry stays in the table, and
  \<^verbatim>\<open>reject\<close> of the same promise is called a second time when the deadline fires (code
  408) or when the socket closes (code 503); the promise keeps the outcome of the first
  call, code 500.
\<close>

theorem request_send_failure_leaks_entry:
  "readyState (run [SocketOpen quiet] a_client) = OPEN \<and>
   settleCalls (run [SocketOpen quiet, User (Request ''save'' (JBigInt 10) 300000 ''r1'')] a_client) =
     [(0, RejectedWith 500 ''Failed to send request'')] \<and>
   sent (run [SocketOpen quiet, User (Request ''save'' (JBigInt 10) 300000 ''r1'')] a_client) = [] \<and>
   pendingRequests (run [SocketOpen quiet, User (Request ''save'' (JBigInt 10) 300000 ''r1'')] a_client) =
     [(''r1'', \<lparr>promise = 0, timeout = 0\<rparr>)] \<and>
   timers (run [SocketOpen quiet, User (Request ''save'' (JBigInt 10) 300000 ''r1'')] a_client) =
     [(0, RequestDeadline ''r1'' 0, 300000)] \<and>
   settleCalls (run [SocketOpen quiet, User (Request ''save'' (JBigInt 10) 300000 ''r1''), TimerFires 0]
                  a_client) =
     [(0, RejectedWith 500 ''Failed to send request''),
      (0, RejectedWith 408 ''Request timed out'')] \<and>
   settleCalls (run [SocketOpen quiet, User (Request ''save'' (JBigInt 10) 300000 ''r1''), SocketClose quiet]
                  a_client) =
     [(0, RejectedWith 500 ''Failed to send request''),
      (0, RejectedWith 503 ''WebSocket connection closed'')] \<and>
   promise_outcome (run [SocketOpen quiet, User (Request ''save'' (JBigInt 10) 300000 ''r1''), TimerFires 0]
                      a_client) 0 =
     Some (RejectedWith 500 ''Failed to send request'')"
  by code_simp

subsection \<open>Reconnection backoff\<close>

text \<open>
  Each reconnection attempt doubles the delay up to the constant 30000. An open whose
  \<^verbatim>\<open>reconnect\<close> handler, if it calls one, returns resets the delay to the constant 1000 and
  the attempt count to 0.
\<close>

lemma backoff_doubles_up_to_30000:
  "reconnectionDelay (reconnect_attempt s) = min 30000 (reconnectionDelay s * 2) \<and>
   currentAttempt (reconnect_attempt s) = currentAttempt s + 1"
  by (simp add: reconnect_attempt_def Let_def reconnectResume_def initializeSocket_def)

lemma emit_each_counters:
  "reconnectionDelay (state_of (emit_each es s)) = reconnectionDelay s \<and>
   currentAttempt (state_of (emit_each es s)) = currentAttempt s"
  by (induction es arbitrary: s)
     (auto simp: emit_def send_json_def split: result.splits ready_state.splits if_splits)

lemma open_resets_to_1000:
  assumes "currentAttempt s \<le> 0 \<or> returns (call_handler hs ''reconnect'' [] (s\<lparr>readyState := OPEN\<rparr>))"
  shows "reconnectionDelay (state_of (socket_opened hs s)) = 1000 \<and>
         currentAttempt (state_of (socket_opened hs s)) = 0"
proof -
  have f: "reconnectionDelay (state_of (flushEventQueue t)) = reconnectionDelay t \<and>
        currentAttempt (state_of (flushEventQueue t)) = currentAttempt t" for t
    using emit_each_counters[of "eventQueue t" t]
    by (cases "emit_each (eventQueue t) t") (simp_all add: flushEventQueue_def)
  let ?o = "s\<lparr>readyState := OPEN\<rparr>"
  show ?thesis
  proof (cases "currentAttempt s \<le> 0")
    case True
    then show ?thesis by (simp add: socket_opened_def onopen_def f)
  next
    case False
    then obtain s1 where "call_handler hs ''reconnect'' [] ?o = Done s1"
      using assms by (cases "call_handler hs ''reconnect'' [] ?o") simp_all
    then show ?thesis using False by (simp add: socket_opened_def onopen_def f)
  qed
qed

text \<open>
  Claim C4 says that the waits before successive failed attempts are \<open>B\<close>, \<open>min (2B) M\<close>,
  \<open>min (4B) M\<close>, ... for the configured base delay \<open>B\<close> and the configured maximum \<open>M\<close>
  (default 10000), and that a successful open resets the delay to \<open>B\<close>. The code has no
  configured maximum: the cap is the constant 30000, so the waits of a client built with
  the defaults are 1000, 2000, 4000, 8000, 16000. And an open resets the delay to the
  constant 1000, not to the configured base: a client built with
  \<^verbatim>\<open>reconnectionDelay: 100\<close> waits 1000 before its first attempt after an open.
\<close>

theorem backoff_ignores_configuration:
  "timers (run [SocketClose quiet] a_client) = [(0, Reconnect, 1000)] \<and>
   timers (run [SocketClose quiet, TimerFires 0, SocketClose quiet] a_client) = [(1, Reconnect, 2000)] \<and>
   timers (run [SocketClose quiet, TimerFires 0, SocketClose quiet, TimerFires 1, SocketClose quiet] a_client) =
     [(2, Reconnect, 4000)] \<and>
   timers (run [SocketClose quiet, TimerFires 0, SocketClose quiet, TimerFires 1, SocketClose quiet,
                TimerFires 2, SocketClose quiet] a_client) = [(3, Reconnect, 8000)] \<and>
   timers (run [SocketClose quiet, TimerFires 0, SocketClose quiet, TimerFires 1, SocketClose quiet,
                TimerFires 2, SocketClose quiet, TimerFires 3, SocketClose quiet] a_client) =
     [(4, Reconnect, 16000)] \<and>
   reconnectionDelay
     (new_client ''ws:'' ''example.org'' (no_options\<lparr>optReconnectionDelay := Some 100\<rparr>)) = 100 \<and>
   timers (run [SocketOpen quiet, SocketClose quiet]
     (new_client ''ws:'' ''example.org'' (no_options\<lparr>optReconnectionDelay := Some 100\<rparr>))) =
     [(0, Reconnect, 1000)]"
  by code_simp

subsection \<open>Giving up\<close>

text \<open>
  On the automatic path, a close with the attempt count at or above
  \<^verbatim>\<open>reconnectionAttempts\<close> calls the \<^verbatim>\<open>reconnect_failed\<close> handler, schedules no timer and
  creates no socket (the handlers making no call and returning).
\<close>

lemma gives_up_at_the_maximum:
  assumes "\<not> isManuallyDisconnected s" "shouldReconnect s"
    "currentAttempt s \<ge> reconnectionAttempts s" "events s ''reconnect_failed'' = Some h"
    "silent hs s ''disconnect'' []" "silent hs s ''reconnect_failed'' []"
  shows "returns (onclose hs s)"
    and "timers (state_of (onclose hs s)) =
           filter (\<lambda>t. fst t \<notin> set (map (\<lambda>e. timeout (snd e)) (pendingRequests s))) (timers s)"
    and "\<exists>calls. handlerCalls (state_of (onclose hs s)) = calls @ [(h, [])]"
    and "socketsCreated (state_of (onclose hs s)) = socketsCreated s"
proof -
  from call_handler_silent[OF assms(5)] obtain l
    where c: "call_handler hs ''disconnect'' [] s = Done (s\<lparr>handlerCalls := l\<rparr>)"
    by blast
  let ?s2 = "clearPendingRequests (s\<lparr>handlerCalls := l\<rparr>)"
  have "events ?s2 ''reconnect_failed'' = Some h"
    using assms(4) by (simp add: clearPendingRequests_rest)
  moreover have "silent hs ?s2 ''reconnect_failed'' []"
    using assms(6) by (simp add: silent_def clearPendingRequests_rest)
  ultimately have r: "call_handler hs ''reconnect_failed'' [] ?s2 =
      Done (?s2\<lparr>handlerCalls := handlerCalls ?s2 @ [(h, [])]\<rparr>)"
    by (simp add: silent_def call_handler_def react_def)
  have o: "onclose hs s = Done (?s2\<lparr>handlerCalls := handlerCalls ?s2 @ [(h, [])]\<rparr>)"
    using assms(1,2,3)
    by (simp add: onclose_def c Let_def clearPendingRequests_rest tryReconnect_def r)
  show "returns (onclose hs s)" by (simp add: o)
  show "timers (state_of (onclose hs s)) =
           filter (\<lambda>t. fst t \<notin> set (map (\<lambda>e. timeout (snd e)) (pendingRequests s))) (timers s)"
    by (simp add: o clearPendingRequests_timers)
  show "\<exists>calls. handlerCalls (state_of (onclose hs s)) = calls @ [(h, [])]"
    by (simp add: o)
  show "socketsCreated (state_of (onclose hs s)) = socketsCreated s"
    by (simp add: o clearPendingRequests_rest)
qed

text \<open>
  Claim C5 says that the maximum number of attempts defaults to effectively unbounded.
  In the code it defaults to 5: a client built without options makes five attempts, and
  the close after the fifth calls \<^verbatim>\<open>reconnect_failed\<close> and schedules nothing.
\<close>

theorem default_client_gives_up_after_five_attempts:
  "reconnectionAttempts a_client = 5 \<and>
   socketsCreated
     (run [User (On ''reconnect_failed'' 7),
           SocketClose quiet, TimerFires 0, SocketClose quiet, TimerFires 1, SocketClose quiet, TimerFires 2,
           SocketClose quiet, TimerFires 3, SocketClose quiet, TimerFires 4] a_client) = 6 \<and>
   timers
     (run [User (On ''reconnect_failed'' 7),
           SocketClose quiet, TimerFires 0, SocketClose quiet, TimerFires 1, SocketClose quiet, TimerFires 2,
           SocketClose quiet, TimerFires 3, SocketClose quiet, TimerFires 4, SocketClose quiet] a_client) = [] \<and>
   handlerCalls
     (run [User (On ''reconnect_failed'' 7),
           SocketClose quiet, TimerFires 0, SocketClose quiet, TimerFires 1, SocketClose quiet, TimerFires 2,
           SocketClose quiet, TimerFires 3, SocketClose quiet, TimerFires 4, SocketClose quiet] a_client) =
     [(7, [])]"
  by code_simp

subsection \<open>The reconnect notification\<close>

lemma emit_each_handlerCalls:
  "handlerCalls (state_of (emit_each es s)) = handlerCalls s"
  by (induction es arbitrary: s)
     (auto simp: emit_def send_json_def split: result.splits ready_state.splits if_splits)

lemma flushEventQueue_handlerCalls:
  "handlerCalls (state_of (flushEventQueue s)) = handlerCalls s"
  using emit_each_handlerCalls[of "eventQueue s" s]
  by (cases "emit_each (eventQueue s) s") (simp_all add: flushEventQueue_def)

lemma request_handlerCalls: "handlerCalls (request ep d t rid s) = handlerCalls s"
  by (simp add: request_def Let_def settle_def setTimeout_def send_json_def
      split: ready_state.splits)

lemma user_call_handlerCalls: "handlerCalls (state_of (user_call c s)) = handlerCalls s"
proof (cases c)
  case (Emit e d)
  then show ?thesis by (simp add: emit_state)
qed (simp_all add: on_def close_def socket_close_def onRequest_def enableServerRequests_def
      disableServerRequests_def reconnectResume_def initializeSocket_def disconnect_def
      request_handlerCalls send_json_state respond_def sendResponse_def)

lemma do_calls_handlerCalls: "handlerCalls (state_of (do_calls cs s)) = handlerCalls s"
proof (induction cs arbitrary: s)
  case Nil
  then show ?case by simp
next
  case (Cons c cs)
  note u = user_call_handlerCalls[of "fst c" s]
  show ?case
  proof (cases "user_call (fst c) s")
    case (Done s')
    then show ?thesis using u Cons.IH[of s'] by simp
  next
    case (Threw x s')
    then show ?thesis using u Cons.IH[of s'] by simp
  qed
qed

lemma call_handler_handlerCalls:
  "events s n = Some h \<Longrightarrow>
   handlerCalls (state_of (call_handler hs n args s)) = handlerCalls s @ [(h, args)]"
  by (simp add: state_of_call_handler do_calls_handlerCalls)

text \<open>
  When the socket opens with a positive attempt count, the \<^verbatim>\<open>reconnect\<close> handler is called
  with no argument, whatever the handler then does.
\<close>

lemma reconnect_call_has_no_argument:
  assumes "currentAttempt s > 0" "events s ''reconnect'' = Some h"
  shows "handlerCalls (state_of (socket_opened hs s)) = handlerCalls s @ [(h, [])]"
proof -
  let ?o = "s\<lparr>readyState := OPEN\<rparr>"
  have e: "events ?o ''reconnect'' = Some h" using assms(2) by simp
  note c = call_handler_handlerCalls[OF e, of hs "[]"]
  show ?thesis
  proof (cases "call_handler hs ''reconnect'' [] ?o")
    case (Done s1)
    then show ?thesis using c assms(1)
      by (simp add: socket_opened_def onopen_def flushEventQueue_handlerCalls)
  next
    case (Threw x s1)
    then show ?thesis using c assms(1)
      by (simp add: socket_opened_def onopen_def)
  qed
qed

text \<open>
  Claim C8 says that the reconnect notification carries the attempt count as its payload.
  The code calls the handler as \<^verbatim>\<open>this.events.get("reconnect")?.()\<close>: after one failed
  attempt the count is 1 and the handler registered for \<^verbatim>\<open>reconnect\<close> is called with an
  empty argument list.
\<close>

theorem reconnect_handler_gets_no_argument:
  "currentAttempt (run [User (On ''reconnect'' 3), SocketClose quiet, TimerFires 0] a_client) = 1 \<and>
   handlerCalls (run [User (On ''reconnect'' 3), SocketClose quiet, TimerFires 0] a_client) = [] \<and>
   handlerCalls (run [User (On ''reconnect'' 3), SocketClose quiet, TimerFires 0, SocketOpen quiet] a_client) =
     [(3, [])]"
  by code_simp

end
